theory Spec2Isabelle
  imports Main "HOL-Library.Word"
begin

unbundle bit_operations_syntax

section \<open>PAA texture container: shallow embedding of the Go sources\<close>

text \<open>
  Bytes are \<open>8 word\<close>, the Go \<open>uint16\<close>/\<open>uint32\<close> are \<open>16 word\<close>/\<open>32 word\<close>, Go \<open>int\<close>
  (64 bit on the supported platforms, never near its bounds here) is \<open>int\<close> or \<open>nat\<close>.
  A Go \<open>string\<close> holding a tag name is the list of its bytes; \<open>bytes_of\<close> turns a
  literal into that list.  The collaborators that live in other modules (BCn block
  codec, LZO, LZSS, the mip generator) and the floating point normal-map code are
  parameters of the functions that call them.
\<close>

type_synonym byte = "8 word"

definition bytes_of :: "string \<Rightarrow> byte list" where
  "bytes_of s = map (\<lambda>c. of_nat (of_char c)) s"

text \<open>A Go \<open>[4]byte\<close> array and the slice \<open>a[:]\<close> of its bytes.\<close>

type_synonym byte4 = "byte \<times> byte \<times> byte \<times> byte"

fun bytes4 :: "byte4 \<Rightarrow> byte list" where
  "bytes4 (b0, b1, b2, b3) = [b0, b1, b2, b3]"

subsection \<open>Errors (errors.go) and \<open>errors.Is\<close>\<close>

datatype error =
    ErrNoMipmaps
  | ErrInvalidMagic
  | ErrMissingSFFO
  | ErrInsufficientData
  | ErrUnsupportedPixelFmt
  | ErrUnsupportedFormat
  | ErrLZODecompress
  | ErrLZSSDecompress
  | ErrDXTDecode
  | ErrInvalidDimensions
  | EOF
  | ErrUnexpectedEOF
  | ExternalErr string
  | Panic string
  | Errorf error string
  | Join error error

text \<open>\<open>errors.Is\<close>: the error itself, or what it wraps (\<open>fmt.Errorf("%w: ...")\<close>,
  \<open>errors.Join\<close>).\<close>

fun errorsIs :: "error \<Rightarrow> error \<Rightarrow> bool" where
  "errorsIs (Errorf e s) t = (Errorf e s = t \<or> errorsIs e t)"
| "errorsIs (Join a b) t = (Join a b = t \<or> errorsIs a t \<or> errorsIs b t)"
| "errorsIs e t = (e = t)"

subsection \<open>Pixel formats (PaxType)\<close>

text \<open>The nine format codes; \<open>PaxAuto\<close> is the zero value of the Go \<open>uint32\<close> type
  (``choose by alpha'' in the encoder options, never produced by the reader).\<close>

datatype PaxType =
    PaxAuto
  | PaxGRAYA
  | PaxARGBA5
  | PaxARGB4
  | PaxARGB8
  | PaxDXT1
  | PaxDXT2
  | PaxDXT3
  | PaxDXT4
  | PaxDXT5

fun PaxType_Bytes :: "PaxType \<Rightarrow> byte list" where
  "PaxType_Bytes PaxDXT1 = [1, 255]"
| "PaxType_Bytes PaxDXT2 = [2, 255]"
| "PaxType_Bytes PaxDXT3 = [3, 255]"
| "PaxType_Bytes PaxDXT4 = [4, 255]"
| "PaxType_Bytes PaxDXT5 = [5, 255]"
| "PaxType_Bytes PaxARGB4 = [68, 68]"
| "PaxType_Bytes PaxARGBA5 = [85, 21]"
| "PaxType_Bytes PaxARGB8 = [136, 136]"
| "PaxType_Bytes PaxGRAYA = [128, 128]"
| "PaxType_Bytes PaxAuto = [0, 0]"

definition u16le :: "byte \<Rightarrow> byte \<Rightarrow> 16 word" where
  "u16le b0 b1 = ucast b0 OR push_bit 8 (ucast b1)"

definition u32le :: "byte \<Rightarrow> byte \<Rightarrow> byte \<Rightarrow> byte \<Rightarrow> 32 word" where
  "u32le b0 b1 b2 b3 =
     ucast b0 OR push_bit 8 (ucast b1) OR push_bit 16 (ucast b2) OR push_bit 24 (ucast b3)"

definition PutUint16 :: "16 word \<Rightarrow> byte list" where
  "PutUint16 v = [ucast v, ucast (drop_bit 8 v)]"

definition PutUint32 :: "32 word \<Rightarrow> byte list" where
  "PutUint32 v = [ucast v, ucast (drop_bit 8 v), ucast (drop_bit 16 v), ucast (drop_bit 24 v)]"

definition PaxTypeFromBytes :: "byte list \<Rightarrow> PaxType option" where
  "PaxTypeFromBytes b =
     (case b of
        b0 # b1 # _ \<Rightarrow>
          (let v = u16le b0 b1 in
           if v = 0xFF01 then Some PaxDXT1
           else if v = 0xFF02 then Some PaxDXT2
           else if v = 0xFF03 then Some PaxDXT3
           else if v = 0xFF04 then Some PaxDXT4
           else if v = 0xFF05 then Some PaxDXT5
           else if v = 0x4444 then Some PaxARGB4
           else if v = 0x1555 then Some PaxARGBA5
           else if v = 0x8888 then Some PaxARGB8
           else if v = 0x8080 then Some PaxGRAYA
           else None)
      | _ \<Rightarrow> None)"

fun isDXT :: "PaxType \<Rightarrow> bool" where
  "isDXT PaxDXT1 = True"
| "isDXT PaxDXT2 = True"
| "isDXT PaxDXT3 = True"
| "isDXT PaxDXT4 = True"
| "isDXT PaxDXT5 = True"
| "isDXT _ = False"

subsection \<open>The reader: a byte buffer with a position\<close>

text \<open>\<open>ensureSeeker\<close> turns every input into a seekable reader over the whole stream;
  the model is \<open>bytes.Reader\<close>: the data and the read position.  \<open>ReadFull\<close> of zero
  bytes succeeds, of \<open>n > 0\<close> bytes fails with \<open>EOF\<close> when nothing is left and with
  \<open>ErrUnexpectedEOF\<close> when fewer than \<open>n\<close> bytes are left.\<close>

record reader =
  rdata :: "byte list"
  rpos :: nat

definition ReadFull :: "reader \<Rightarrow> nat \<Rightarrow> error + (byte list \<times> reader)" where
  "ReadFull r n =
     (if n = 0 then Inr ([], r)
      else if length (rdata r) \<le> rpos r then Inl EOF
      else if length (rdata r) - rpos r < n then Inl ErrUnexpectedEOF
      else Inr (take n (drop (rpos r) (rdata r)), r\<lparr>rpos := rpos r + n\<rparr>))"

definition Seek :: "reader \<Rightarrow> nat \<Rightarrow> reader" where
  "Seek r off = r\<lparr>rpos := off\<rparr>"

definition readUint16 :: "reader \<Rightarrow> error + (16 word \<times> reader)" where
  "readUint16 r =
     (case ReadFull r 2 of
        Inl e \<Rightarrow> Inl e
      | Inr (bs, r') \<Rightarrow> Inr (u16le (bs ! 0) (bs ! 1), r'))"

definition readUint32 :: "reader \<Rightarrow> error + (32 word \<times> reader)" where
  "readUint32 r =
     (case ReadFull r 4 of
        Inl e \<Rightarrow> Inl e
      | Inr (bs, r') \<Rightarrow> Inr (u32le (bs ! 0) (bs ! 1) (bs ! 2) (bs ! 3), r'))"

subsection \<open>read\_shared.go\<close>

definition readPaxType :: "reader \<Rightarrow> error + (PaxType \<times> reader)" where
  "readPaxType r =
     (case ReadFull r 2 of
        Inl e \<Rightarrow> Inl e
      | Inr (header, r') \<Rightarrow>
          (case PaxTypeFromBytes header of
             None \<Rightarrow> Inl ErrInvalidMagic
           | Some pType \<Rightarrow> Inr (pType, r')))"

type_synonym tags = "byte list \<rightharpoonup> byte list"

text \<open>One round of the loop of \<open>readGGATTags\<close>: \<open>Inr None\<close> is the \<open>break\<close>.\<close>

definition readTag :: "reader \<Rightarrow> error + ((byte list \<times> byte list) option \<times> reader)" where
  "readTag r =
     (case ReadFull r 4 of
        Inl e \<Rightarrow> Inl e
      | Inr (sig, r1) \<Rightarrow>
          if sig \<noteq> bytes_of ''GGAT'' then Inr (None, r1)
          else
            (case ReadFull r1 4 of
               Inl e \<Rightarrow> Inl e
             | Inr (nameBuf, r2) \<Rightarrow>
                 (case readUint32 r2 of
                    Inl e \<Rightarrow> Inl e
                  | Inr (sz, r3) \<Rightarrow>
                      (case ReadFull r3 (unat sz) of
                         Inl e \<Rightarrow> Inl e
                       | Inr (data, r4) \<Rightarrow> Inr (Some (nameBuf, data), r4)))))"

text \<open>The loop of \<open>readGGATTags\<close>; every round that finds a tag moves the read
  position forward inside the data, which is why the loop ends.\<close>

function readGGATTagsLoop :: "tags \<Rightarrow> reader \<Rightarrow> error + (tags \<times> reader)" where
  "readGGATTagsLoop tgs r =
     (case readTag r of
        Inl e \<Rightarrow> Inl e
      | Inr (None, r') \<Rightarrow> Inr (tgs, r')
      | Inr (Some (name, data), r') \<Rightarrow> readGGATTagsLoop (tgs(name \<mapsto> data)) r')"
  by pat_completeness auto
termination
  by (relation "measure (\<lambda>(tgs, r). length (rdata r) - rpos r)")
     (auto simp: readTag_def ReadFull_def readUint32_def
           split: sum.splits if_splits prod.splits)

definition readGGATTags :: "reader \<Rightarrow> error + (tags \<times> reader)" where
  "readGGATTags r = readGGATTagsLoop Map.empty r"

text \<open>\<open>sffoOffsets\<close>: the loop \<open>for i := 0; i+4 <= len(sffo); i += 4\<close> over the payload.\<close>

fun sffoEntries :: "byte list \<Rightarrow> 32 word list" where
  "sffoEntries (b0 # b1 # b2 # b3 # rest) = u32le b0 b1 b2 b3 # sffoEntries rest"
| "sffoEntries _ = []"

definition sffoOffsets :: "tags \<Rightarrow> error + 32 word list" where
  "sffoOffsets tgs =
     (case tgs (bytes_of ''SFFO'') of
        None \<Rightarrow> Inl ErrMissingSFFO
      | Some sffo \<Rightarrow>
          (let out = filter (\<lambda>v. v \<noteq> 0) (sffoEntries sffo) in
           if length out = 0 then Inl (Errorf ErrMissingSFFO '': no non-zero offsets'')
           else Inr out))"

subsection \<open>mip\_map.go: one mip block\<close>

record MipMap =
  Data :: "byte list"
  Type :: PaxType
  Width :: "16 word"
  Height :: "16 word"

text \<open>The decompressors of the LZO and LZSS modules: payload and expected size in,
  the raw bytes or the module's own error out.\<close>

type_synonym decompressor = "byte list \<Rightarrow> nat \<Rightarrow> error + byte list"

definition expectedMipSize :: "PaxType \<Rightarrow> int \<Rightarrow> int \<Rightarrow> int" where
  "expectedMipSize paxType width height =
     (if width \<le> 0 \<or> height \<le> 0 then 0
      else (case paxType of
              PaxDXT1 \<Rightarrow> ((width + 3) div 4) * ((height + 3) div 4) * 8
            | PaxDXT2 \<Rightarrow> ((width + 3) div 4) * ((height + 3) div 4) * 16
            | PaxDXT3 \<Rightarrow> ((width + 3) div 4) * ((height + 3) div 4) * 16
            | PaxDXT4 \<Rightarrow> ((width + 3) div 4) * ((height + 3) div 4) * 16
            | PaxDXT5 \<Rightarrow> ((width + 3) div 4) * ((height + 3) div 4) * 16
            | PaxARGB8 \<Rightarrow> width * height * 4
            | PaxARGBA5 \<Rightarrow> width * height * 2
            | PaxARGB4 \<Rightarrow> width * height * 2
            | PaxGRAYA \<Rightarrow> width * height * 2
            | PaxAuto \<Rightarrow> - 1))"

definition storedSizeOf :: "byte list \<Rightarrow> nat" where
  "storedSizeOf sizeBuf =
     unat (sizeBuf ! 0) OR push_bit 8 (unat (sizeBuf ! 1)) OR push_bit 16 (unat (sizeBuf ! 2))"

definition readMipMap ::
  "decompressor \<Rightarrow> decompressor \<Rightarrow> reader \<Rightarrow> PaxType \<Rightarrow> error + (MipMap option \<times> reader)"
where
  "readMipMap lzoDecompress lzssDecompress r paxType =
     (case readUint16 r of
        Inl e \<Rightarrow> Inl e
      | Inr (w, r1) \<Rightarrow>
     (case readUint16 r1 of
        Inl e \<Rightarrow> Inl e
      | Inr (h, r2) \<Rightarrow>
          if w = 0 \<and> h = 0 then Inr (None, r2)
          else
            (let lzoFlag = (isDXT paxType \<and> (w AND 0x8000) \<noteq> 0);
                 width = (if lzoFlag then w AND 0x7FFF else w);
                 height = h
             in
     (case ReadFull r2 3 of
        Inl e \<Rightarrow> Inl e
      | Inr (sizeBuf, r3) \<Rightarrow>
          (let storedSize = storedSizeOf sizeBuf in
     (case ReadFull r3 storedSize of
        Inl e \<Rightarrow> Inl e
      | Inr (payload, r4) \<Rightarrow>
          (let expectedRaw = expectedMipSize paxType (uint width) (uint height) in
           if expectedRaw < 0 then Inl ErrUnsupportedPixelFmt
           else if int storedSize = expectedRaw then
             Inr (Some \<lparr>Data = payload, Type = paxType, Width = width, Height = height\<rparr>, r4)
           else if isDXT paxType then
             (if \<not> lzoFlag then Inl ErrInsufficientData
              else (case lzoDecompress payload (nat expectedRaw) of
                      Inl e \<Rightarrow> Inl (Join ErrLZODecompress e)
                    | Inr dec \<Rightarrow>
                        Inr (Some \<lparr>Data = dec, Type = paxType, Width = width, Height = height\<rparr>, r4)))
           else
             (case lzssDecompress payload (nat expectedRaw) of
                Inl e \<Rightarrow> Inl (Join ErrLZSSDecompress e)
              | Inr dec \<Rightarrow>
                  Inr (Some \<lparr>Data = dec, Type = paxType, Width = width, Height = height\<rparr>, r4)))))))))"

text \<open>The width that \<open>readMipMap\<close> reports: the stored field without the LZO flag.\<close>

definition mipWidth :: "PaxType \<Rightarrow> 16 word \<Rightarrow> 16 word" where
  "mipWidth paxType w = (if isDXT paxType \<and> (w AND 0x8000) \<noteq> 0 then w AND 0x7FFF else w)"

text \<open>A decompressor that always reports its own error, for closed examples.\<close>

definition noDecompress :: decompressor where
  "noDecompress payload n = Inl (ExternalErr ''no decompressor'')"

subsection \<open>read.go: \<open>DecodePAA\<close>\<close>

record PAA =
  Taggs :: tags
  MipMaps :: "MipMap list"
  PType :: PaxType

fun readMipMaps ::
  "decompressor \<Rightarrow> decompressor \<Rightarrow> PaxType \<Rightarrow> reader \<Rightarrow> 32 word list \<Rightarrow> MipMap list
     \<Rightarrow> error + MipMap list"
where
  "readMipMaps lzoD lzssD t r [] acc = Inr acc"
| "readMipMaps lzoD lzssD t r (offset # offsets) acc =
     (case readMipMap lzoD lzssD (Seek r (unat offset)) t of
        Inl e \<Rightarrow> Inl e
      | Inr (None, r') \<Rightarrow> readMipMaps lzoD lzssD t r' offsets acc
      | Inr (Some mm, r') \<Rightarrow> readMipMaps lzoD lzssD t r' offsets (acc @ [mm]))"

definition DecodePAA :: "decompressor \<Rightarrow> decompressor \<Rightarrow> byte list \<Rightarrow> error + PAA" where
  "DecodePAA lzoD lzssD stream =
     (case readPaxType \<lparr>rdata = stream, rpos = 0\<rparr> of
        Inl e \<Rightarrow> Inl e
      | Inr (pType, r1) \<Rightarrow>
     (case readGGATTags r1 of
        Inl e \<Rightarrow> Inl e
      | Inr (tgs, r2) \<Rightarrow>
     (case sffoOffsets tgs of
        Inl e \<Rightarrow> Inl e
      | Inr offsets \<Rightarrow>
     (case readMipMaps lzoD lzssD pType r2 offsets [] of
        Inl e \<Rightarrow> Inl e
      | Inr mms \<Rightarrow> Inr \<lparr>Taggs = tgs, MipMaps = mms, PType = pType\<rparr>))))"

subsection \<open>\<open>DecodeMetadata\<close>\<close>

record MipHeader =
  Offset :: "32 word"
  HHeight :: "16 word"
  HWidth :: "16 word"

record Metadata =
  MTaggs :: tags
  MipHeaders :: "MipHeader list"
  MType :: PaxType

fun isDXTPaxType :: "PaxType \<Rightarrow> bool" where
  "isDXTPaxType PaxDXT1 = True"
| "isDXTPaxType PaxDXT2 = True"
| "isDXTPaxType PaxDXT3 = True"
| "isDXTPaxType PaxDXT4 = True"
| "isDXTPaxType PaxDXT5 = True"
| "isDXTPaxType _ = False"

fun readMipHeaders ::
  "PaxType \<Rightarrow> reader \<Rightarrow> 32 word list \<Rightarrow> MipHeader list \<Rightarrow> error + MipHeader list"
where
  "readMipHeaders t r [] acc = Inr acc"
| "readMipHeaders t r (offset # offsets) acc =
     (case readUint16 (Seek r (unat offset)) of
        Inl e \<Rightarrow> Inl e
      | Inr (w, r1) \<Rightarrow>
     (case readUint16 r1 of
        Inl e \<Rightarrow> Inl e
      | Inr (h, r2) \<Rightarrow>
          if w = 0 \<and> h = 0 then readMipHeaders t r2 offsets acc
          else
            (let w' = (if isDXTPaxType t \<and> (w AND 0x8000) \<noteq> 0 then w AND 0x7FFF else w)
             in readMipHeaders t r2 offsets
                  (acc @ [\<lparr>Offset = offset, HHeight = h, HWidth = w'\<rparr>]))))"

definition DecodeMetadata :: "byte list \<Rightarrow> error + Metadata" where
  "DecodeMetadata stream =
     (case readPaxType \<lparr>rdata = stream, rpos = 0\<rparr> of
        Inl e \<Rightarrow> Inl e
      | Inr (pType, r1) \<Rightarrow>
     (case readGGATTags r1 of
        Inl e \<Rightarrow> Inl e
      | Inr (tgs, r2) \<Rightarrow>
     (case sffoOffsets tgs of
        Inl e \<Rightarrow> Inl e
      | Inr offsets \<Rightarrow>
     (case readMipHeaders pType r2 offsets [] of
        Inl e \<Rightarrow> Inl e
      | Inr hs \<Rightarrow> Inr \<lparr>MTaggs = tgs, MipHeaders = hs, MType = pType\<rparr>))))"

subsection \<open>Images\<close>

text \<open>A Go \<open>image.Image\<close> is its bounds and its \<open>At\<close> method.  The images here
  have the origin at \<open>(0, 0)\<close> and the straight 8-bit \<open>color.NRGBA\<close> model, for which
  \<open>color.NRGBAModel.Convert\<close> is the identity and \<open>uint8(a >> 8)\<close> of the 16-bit
  alpha of \<open>RGBA()\<close> is the alpha byte itself.\<close>

record NRGBA =
  cR :: byte
  cG :: byte
  cB :: byte
  cA :: byte

record image =
  Dx :: nat
  Dy :: nat
  At :: "nat \<Rightarrow> nat \<Rightarrow> NRGBA"

text \<open>The pixels in the order of the loops
  \<open>for y := Min.Y; y < Max.Y; y++ { for x := Min.X; x < Max.X; x++ { ... } }\<close>.\<close>

definition scan :: "image \<Rightarrow> NRGBA list" where
  "scan img = concat (map (\<lambda>y. map (\<lambda>x. At img x y) [0..<Dx img]) [0..<Dy img])"

text \<open>\<open>image.NewNRGBA(image.Rect(0, 0, w, h))\<close>: a zeroed \<open>Pix\<close> buffer of \<open>4 * w * h\<close>
  bytes with stride \<open>4 * w\<close>; \<open>NRGBAAt\<close> reads a pixel of such a buffer (the zero
  colour outside the rectangle).\<close>

definition NewNRGBA :: "nat \<Rightarrow> nat \<Rightarrow> byte list" where
  "NewNRGBA w h = replicate (4 * w * h) 0"

definition NRGBAAt :: "nat \<Rightarrow> nat \<Rightarrow> byte list \<Rightarrow> nat \<Rightarrow> nat \<Rightarrow> NRGBA" where
  "NRGBAAt w h pix x y =
     (if x < w \<and> y < h then
        (let off = y * (4 * w) + x * 4
         in \<lparr>cR = pix ! off, cG = pix ! (off + 1), cB = pix ! (off + 2), cA = pix ! (off + 3)\<rparr>)
      else \<lparr>cR = 0, cG = 0, cB = 0, cA = 0\<rparr>)"


subsection \<open>Pixel-format codec (uncompressed formats)\<close>

definition encARGB8 :: "NRGBA \<Rightarrow> byte list" where
  "encARGB8 c = [cB c, cG c, cR c, cA c]"

definition encARGBA5 :: "NRGBA \<Rightarrow> byte list" where
  "encARGBA5 c =
     (let a = (if cA c \<ge> 128 then 1 else 0 :: 16 word);
          r = (ucast (drop_bit 3 (cR c)) :: 16 word);
          g = (ucast (drop_bit 3 (cG c)) :: 16 word);
          bl = (ucast (drop_bit 3 (cB c)) :: 16 word);
          p = push_bit 15 a OR push_bit 10 r OR push_bit 5 g OR bl
      in PutUint16 p)"

definition packARGB4 :: "NRGBA \<Rightarrow> 16 word" where
  "packARGB4 c =
     (let r = (ucast (drop_bit 4 (cR c)) :: 16 word);
          g = (ucast (drop_bit 4 (cG c)) :: 16 word);
          bl = (ucast (drop_bit 4 (cB c)) :: 16 word);
          a = (ucast (drop_bit 4 (cA c)) :: 16 word)
      in push_bit 12 a OR push_bit 8 bl OR push_bit 4 g OR r)"

definition encARGB4 :: "NRGBA \<Rightarrow> byte list" where
  "encARGB4 c = PutUint16 (packARGB4 c)"

text \<open>\<open>encodePixelFormat\<close>; the luminance of GRAYA is computed in floating point
  (\<open>math.Round(0.299*R + 0.587*G + 0.114*B)\<close>) and is the parameter \<open>lum\<close>.\<close>

definition encodePixelFormat :: "(NRGBA \<Rightarrow> byte) \<Rightarrow> PaxType \<Rightarrow> image \<Rightarrow> error + byte list" where
  "encodePixelFormat lum format img =
     (if Dx img \<le> 0 \<or> Dy img \<le> 0 then Inl ErrInvalidDimensions
      else (case format of
              PaxARGB8 \<Rightarrow> Inr (concat (map encARGB8 (scan img)))
            | PaxARGBA5 \<Rightarrow> Inr (concat (map encARGBA5 (scan img)))
            | PaxARGB4 \<Rightarrow> Inr (concat (map encARGB4 (scan img)))
            | PaxGRAYA \<Rightarrow> Inr (concat (map (\<lambda>c. [lum c, cA c]) (scan img)))
            | _ \<Rightarrow> Inl ErrUnsupportedPixelFmt))"

text \<open>The decoders write \<open>img.Pix[i*4 + k]\<close> for \<open>i = 0, 1, ...\<close>; an index beyond the
  buffer is a run-time panic.  \<open>storePix\<close> is the effect of the whole loop on the
  buffer: the decoded bytes replace its front.\<close>

definition storePix :: "byte list \<Rightarrow> byte list \<Rightarrow> error + byte list" where
  "storePix new pix =
     (if length new \<le> length pix then Inr (new @ drop (length new) pix)
      else Inl (Panic ''index out of range''))"

fun decARGB8 :: "nat \<Rightarrow> byte list \<Rightarrow> byte list" where
  "decARGB8 (Suc n) (b0 # b1 # b2 # b3 # rest) = [b2, b1, b0, b3] @ decARGB8 n rest"
| "decARGB8 _ _ = []"

definition decARGBA5pix :: "16 word \<Rightarrow> byte list" where
  "decARGBA5pix p =
     (let a = (if (p AND 0x8000) \<noteq> 0 then 255 else 0 :: byte);
          r = push_bit 3 (ucast (drop_bit 10 p AND 0x1F) :: byte);
          g = push_bit 3 (ucast (drop_bit 5 p AND 0x1F) :: byte);
          b = push_bit 3 (ucast (p AND 0x1F) :: byte)
      in [r, g, b, a])"

fun decARGBA5 :: "byte list \<Rightarrow> byte list" where
  "decARGBA5 (b0 # b1 # rest) = decARGBA5pix (u16le b0 b1) @ decARGBA5 rest"
| "decARGBA5 _ = []"

definition decARGB4pix :: "16 word \<Rightarrow> byte list" where
  "decARGB4pix p =
     [ucast (push_bit 4 (p AND 0x0F)),
      ucast (push_bit 4 (drop_bit 4 p AND 0x0F)),
      ucast (push_bit 4 (drop_bit 8 p AND 0x0F)),
      ucast (push_bit 4 (drop_bit 12 p AND 0x0F))]"

fun decARGB4 :: "byte list \<Rightarrow> byte list" where
  "decARGB4 (b0 # b1 # rest) = decARGB4pix (u16le b0 b1) @ decARGB4 rest"
| "decARGB4 _ = []"

fun decGRAYA :: "nat \<Rightarrow> byte list \<Rightarrow> byte list" where
  "decGRAYA (Suc n) (v # a # rest) = [v, v, v, a] @ decGRAYA n rest"
| "decGRAYA _ _ = []"

definition decodePixelFormat ::
  "PaxType \<Rightarrow> byte list \<Rightarrow> nat \<Rightarrow> nat \<Rightarrow> byte list \<Rightarrow> error + byte list"
where
  "decodePixelFormat format rawData width height pix =
     (case format of
        PaxARGB8 \<Rightarrow>
          (if length rawData < width * height * 4 then Inl ErrInsufficientData
           else storePix (decARGB8 (width * height) rawData) pix)
      | PaxARGBA5 \<Rightarrow> storePix (decARGBA5 rawData) pix
      | PaxARGB4 \<Rightarrow> storePix (decARGB4 rawData) pix
      | PaxGRAYA \<Rightarrow>
          (if length rawData < width * height * 2 then Inl ErrInsufficientData
           else storePix (decGRAYA (width * height) rawData) pix)
      | _ \<Rightarrow> Inl ErrUnsupportedPixelFmt)"


subsection \<open>Swizzle on decode\<close>

definition swizzleDXT5NM :: "byte list" where
  "swizzleDXT5NM = [0x05, 0x04, 0x02, 0x03]"

text \<open>The closure \<open>get\<close> of \<open>applySwizzlePayload\<close> and the body of its loop over the
  four tag bytes, for one pixel.\<close>

definition getChannel :: "NRGBA \<Rightarrow> byte \<Rightarrow> byte" where
  "getChannel c sel =
     (if sel AND 0x3 = 0 then cA c
      else if sel AND 0x3 = 1 then cR c
      else if sel AND 0x3 = 2 then cG c
      else cB c)"

definition swizzleValue :: "NRGBA \<Rightarrow> byte \<Rightarrow> byte" where
  "swizzleValue c t =
     (if (t AND 0x08) \<noteq> 0 then 0xFF
      else (let v = getChannel c t in if (t AND 0x04) \<noteq> 0 then 255 - v else v))"

definition swizzlePixel :: "byte list \<Rightarrow> NRGBA \<Rightarrow> NRGBA" where
  "swizzlePixel tag c =
     \<lparr>cR = swizzleValue c (tag ! 1), cG = swizzleValue c (tag ! 2),
      cB = swizzleValue c (tag ! 3), cA = swizzleValue c (tag ! 0)\<rparr>"

text \<open>A new NRGBA image of the same size whose pixels are \<open>f\<close> of the source pixels.\<close>

definition mapPixels :: "(NRGBA \<Rightarrow> NRGBA) \<Rightarrow> image \<Rightarrow> image" where
  "mapPixels f img =
     \<lparr>Dx = Dx img, Dy = Dy img,
      At = (\<lambda>x y. if x < Dx img \<and> y < Dy img then f (At img x y)
                   else \<lparr>cR = 0, cG = 0, cB = 0, cA = 0\<rparr>)\<rparr>"

definition applySwizzlePayload :: "image \<Rightarrow> byte list \<Rightarrow> image" where
  "applySwizzlePayload img tag = mapPixels (swizzlePixel tag) img"

definition applyADSHQSwizzle :: "image \<Rightarrow> image" where
  "applyADSHQSwizzle img =
     mapPixels (\<lambda>c. \<lparr>cR = 0, cG = cA c, cB = cA c, cA = cA c\<rparr>) img"

text \<open>\<open>applySwizzleTag\<close>; \<open>unswizzleNormalMap\<close> renormalises in floating point and is a
  parameter.\<close>

definition applySwizzleTag :: "(image \<Rightarrow> image) \<Rightarrow> PAA \<Rightarrow> image \<Rightarrow> image" where
  "applySwizzleTag unswizzleNormalMap p img =
     (case Taggs p (bytes_of ''ZIWS'') of
        None \<Rightarrow> img
      | Some tag \<Rightarrow>
          if length tag \<noteq> 4 \<or> PType p \<noteq> PaxDXT5 then img
          else if tag = swizzleDXT5NM then unswizzleNormalMap img
          else if tag = [0x02, 0x09, 0x03, 0x09] then applyADSHQSwizzle img
          else applySwizzlePayload img tag)"


subsection \<open>texconfig: formats, swizzle expressions, hints, config\<close>

datatype TexFormat =
    TexFormatDefault
  | TexFormatP8
  | TexFormatARGB4444
  | TexFormatARGB1555
  | TexFormatAI88
  | TexFormatDXT1
  | TexFormatDXT2
  | TexFormatDXT3
  | TexFormatDXT4
  | TexFormatDXT5
  | TexFormatOther

datatype MipmapFilter =
    MipmapFilterDefault
  | MipmapFilterFadeOutAlpha
  | MipmapFilterNormalizeNormalMap
  | MipmapFilterFadeOut
  | MipmapFilterAlphaNoise
  | MipmapFilterNormalizeNormalMapAlpha
  | MipmapFilterNormalizeNormalMapNoise
  | MipmapFilterNormalizeNormalMapFade
  | MipmapFilterAddAlphaNoise

datatype ErrorMetrics =
    ErrorMetricsDefault
  | ErrorMetricsDistance
  | ErrorMetricsNormalMap
  | ErrorMetricsOther

text \<open>\<open>SwizzleSource\<close> is a Go \<open>int\<close>; \<open>SwizzleOther\<close> stands for the values outside
  the four named ones (likewise \<open>TexFormatOther\<close> and \<open>ErrorMetricsOther\<close> above).\<close>

datatype SwizzleSource = SwizzleA | SwizzleR | SwizzleG | SwizzleB | SwizzleOther

record SwizzleExpr =
  Source :: SwizzleSource
  Valid :: bool
  IsConst :: bool
  ConstValue :: byte
  Invert :: bool

record ChannelSwizzle =
  swzR :: SwizzleExpr
  swzG :: SwizzleExpr
  swzB :: SwizzleExpr
  swzA :: SwizzleExpr






record TextureHint =
  EnableDXT :: "bool option"
  DynRange :: "bool option"
  AutoReduce :: "bool option"
  VirtualSwz :: "bool option"
  Dithering :: "bool option"
  ClassName :: string
  Extends :: string
  Pattern :: string
  Swizzle :: ChannelSwizzle
  Format :: TexFormat
  HMipmapFilter :: MipmapFilter
  HErrorMetrics :: ErrorMetrics
  LimitSize :: int

record TexConvertConfig =
  Hints :: "TextureHint list"
  ConvertVersion :: int
  ApplyDefaultErrorMetrics :: bool
  UseSRGBFromDynRange :: bool
  DisableAutoReduce :: bool
  DisableLZO :: bool

text \<open>\<open>Clone\<close> builds a composite literal with two fields and copies the hints;
  the fields that the literal does not name keep their zero value.\<close>

definition Clone :: "TexConvertConfig \<Rightarrow> TexConvertConfig" where
  "Clone c =
     \<lparr>Hints = Hints c,
      ConvertVersion = ConvertVersion c,
      ApplyDefaultErrorMetrics = False,
      UseSRGBFromDynRange = False,
      DisableAutoReduce = False,
      DisableLZO = False\<rparr>"

text \<open>The process-wide default: the \<open>sync.Once\<close> flag and the stored value.  The
  built-in table \<open>defaultTexConvertConfig()\<close> is the parameter \<open>builtin\<close>.\<close>

record defaultState =
  onceDone :: bool
  defaultTexConvertCfgv :: TexConvertConfig

definition onceInit :: "TexConvertConfig \<Rightarrow> defaultState \<Rightarrow> defaultState" where
  "onceInit builtin st =
     (if onceDone st then st
      else \<lparr>onceDone = True, defaultTexConvertCfgv = builtin\<rparr>)"

definition DefaultTexConvertConfig ::
  "TexConvertConfig \<Rightarrow> defaultState \<Rightarrow> TexConvertConfig \<times> defaultState"
where
  "DefaultTexConvertConfig builtin st =
     (let st' = onceInit builtin st in (Clone (defaultTexConvertCfgv st'), st'))"

definition SetDefaultTexConvertConfig ::
  "TexConvertConfig \<Rightarrow> TexConvertConfig \<Rightarrow> defaultState \<Rightarrow> defaultState"
where
  "SetDefaultTexConvertConfig builtin cfg st =
     (let st' = onceInit builtin st in st'\<lparr>defaultTexConvertCfgv := Clone cfg\<rparr>)"

subsection \<open>Encoding policy\<close>

record alphaStats =
  hasAlpha :: bool
  allHigh :: bool
  isBinary :: bool

definition scanAlphaStep :: "NRGBA \<Rightarrow> alphaStats \<Rightarrow> alphaStats" where
  "scanAlphaStep c stats =
     (let a8 = cA c;
          s1 = (if a8 < 255 then stats\<lparr>hasAlpha := True\<rparr> else stats);
          s2 = (if a8 < 0xF0 then s1\<lparr>allHigh := False\<rparr> else s1);
          s3 = (if a8 \<noteq> 0 \<and> a8 \<noteq> 255 then s2\<lparr>isBinary := False\<rparr> else s2)
      in s3)"

definition scanAlpha :: "image \<Rightarrow> alphaStats" where
  "scanAlpha img =
     (let stats = fold scanAlphaStep (scan img)
                    \<lparr>hasAlpha = False, allHigh = True, isBinary = True\<rparr>
      in if \<not> hasAlpha stats then stats\<lparr>isBinary := True\<rparr> else stats)"

fun selectPaxType :: "alphaStats \<Rightarrow> TextureHint \<Rightarrow> error + PaxType" where
  "selectPaxType stats hint =
     (case Format hint of
        TexFormatDefault \<Rightarrow>
          if allHigh stats \<or> \<not> hasAlpha stats \<or> isBinary stats then Inr PaxDXT1
          else Inr PaxDXT5
      | TexFormatDXT1 \<Rightarrow> Inr PaxDXT1
      | TexFormatDXT5 \<Rightarrow> Inr PaxDXT5
      | TexFormatDXT2 \<Rightarrow> Inl ErrUnsupportedFormat
      | TexFormatDXT3 \<Rightarrow> Inl ErrUnsupportedFormat
      | TexFormatDXT4 \<Rightarrow> Inl ErrUnsupportedFormat
      | TexFormatARGB4444 \<Rightarrow> Inr PaxARGB4
      | TexFormatARGB1555 \<Rightarrow> Inr PaxARGBA5
      | TexFormatAI88 \<Rightarrow> Inr PaxGRAYA
      | TexFormatP8 \<Rightarrow> Inl ErrUnsupportedFormat
      | TexFormatOther \<Rightarrow> Inl ErrUnsupportedFormat)"



record BCnEncodeOptions =
  RGBWeights :: "(nat \<times> nat \<times> nat) option"

record EncodeOptions =
  BCn :: "BCnEncodeOptions option"
  OSwizzle :: "ChannelSwizzle option"
  GenerateMipmaps :: "bool option"
  OMipmapFilter :: "MipmapFilter option"
  MaxMipCount :: int
  MinMipSize :: int
  OType :: PaxType
  SwizzleTag :: byte4
  NormalMapSwizzle :: bool
  WriteNohqSwizzleTag :: bool
  WriteSwizzleTag :: bool
  SkipSwizzle :: bool
  WriteGALF :: bool
  GALFValue :: byte
  ForceCXAMFull :: bool
  UseLZO :: bool
  ForceLZSS :: bool
  UseSRGB :: bool

text \<open>The zero value \<open>EncodeOptions{Type: paxType}\<close>.\<close>

definition zeroEncodeOptions :: "PaxType \<Rightarrow> EncodeOptions" where
  "zeroEncodeOptions paxType =
     \<lparr>BCn = None, OSwizzle = None, GenerateMipmaps = None, OMipmapFilter = None,
      MaxMipCount = 0, MinMipSize = 0, OType = paxType, SwizzleTag = (0, 0, 0, 0),
      NormalMapSwizzle = False, WriteNohqSwizzleTag = False, WriteSwizzleTag = False,
      SkipSwizzle = False, WriteGALF = False, GALFValue = 0, ForceCXAMFull = False,
      UseLZO = False, ForceLZSS = False, UseSRGB = False\<rparr>"



subsection \<open>Channel swizzle on encode (texconfig)\<close>

definition channelValue :: "SwizzleSource \<Rightarrow> NRGBA \<Rightarrow> byte" where
  "channelValue src c =
     (case src of
        SwizzleA \<Rightarrow> cA c
      | SwizzleR \<Rightarrow> cR c
      | SwizzleG \<Rightarrow> cG c
      | SwizzleB \<Rightarrow> cB c
      | SwizzleOther \<Rightarrow> 0)"

definition exprApply :: "SwizzleExpr \<Rightarrow> NRGBA \<Rightarrow> SwizzleSource \<Rightarrow> byte" where
  "exprApply e c def =
     (if \<not> Valid e then channelValue def c
      else if IsConst e then ConstValue e
      else (let v = channelValue (Source e) c in if Invert e then 255 - v else v))"

definition ApplyChannelSwizzle :: "image \<Rightarrow> ChannelSwizzle \<Rightarrow> image" where
  "ApplyChannelSwizzle img swz =
     mapPixels (\<lambda>c. \<lparr>cR = exprApply (swzR swz) c SwizzleR, cG = exprApply (swzG swz) c SwizzleG,
                     cB = exprApply (swzB swz) c SwizzleB, cA = exprApply (swzA swz) c SwizzleA\<rparr>)
       img"

subsection \<open>write.go: \<open>EncodeWithOptions\<close>\<close>

text \<open>What \<open>EncodeWithOptions\<close> calls outside this package or computes in floating
  point: the DXT5 normal-map swizzle, the mip generator with its filters, the BCn
  block encoder, the GRAYA luminance and the two compressors.\<close>

record externals =
  swizzleNormalMap :: "image \<Rightarrow> image"
  generateMipmapsWithFilter :: "image \<Rightarrow> bool \<Rightarrow> MipmapFilter \<Rightarrow> image list"
  bcnEncode :: "image \<Rightarrow> PaxType \<Rightarrow> BCnEncodeOptions option \<Rightarrow> error + byte list"
  luminance :: "NRGBA \<Rightarrow> byte"
  lzoCompress :: "byte list \<Rightarrow> error + byte list"
  lzssCompress :: "byte list \<Rightarrow> error + byte list"

record mipBlock =
  mdata :: "byte list"
  mw :: int
  mh :: int
  museLZ :: bool

text \<open>The loop that picks the mip images from the generated chain.\<close>

fun takeMips :: "image list \<Rightarrow> int \<Rightarrow> int \<Rightarrow> image list \<Rightarrow> image list" where
  "takeMips [] maxMipCount minMipSize mipImages = mipImages"
| "takeMips (m # ms) maxMipCount minMipSize mipImages =
     (let mipImages' = mipImages @ [m] in
      if maxMipCount > 0 \<and> int (length mipImages') \<ge> maxMipCount then mipImages'
      else if int (Dx m) \<le> minMipSize \<and> int (Dy m) \<le> minMipSize then mipImages'
      else takeMips ms maxMipCount minMipSize mipImages')"

text \<open>The body of the loop that encodes one mip image.\<close>

definition encodeMip ::
  "externals \<Rightarrow> EncodeOptions option \<Rightarrow> PaxType \<Rightarrow> image \<Rightarrow> error + mipBlock"
where
  "encodeMip ext opts paxType m =
     (let e1 = (case opts of
                  Some ops \<Rightarrow> if NormalMapSwizzle ops then swizzleNormalMap ext m else m
                | None \<Rightarrow> m);
          encodeImg =
            (case opts of
               Some ops \<Rightarrow>
                 (case OSwizzle ops of
                    Some sw \<Rightarrow> if \<not> SkipSwizzle ops then ApplyChannelSwizzle e1 sw else e1
                  | None \<Rightarrow> e1)
             | None \<Rightarrow> e1);
          bcnOpts = (case opts of Some ops \<Rightarrow> BCn ops | None \<Rightarrow> None);
          encoded =
            (if isDXT paxType then
               (if paxType = PaxDXT5 then bcnEncode ext encodeImg PaxDXT5 bcnOpts
                else bcnEncode ext encodeImg PaxDXT1 bcnOpts)
             else encodePixelFormat (luminance ext) paxType encodeImg)
      in (case encoded of
            Inl e \<Rightarrow> Inl e
          | Inr compressedData \<Rightarrow>
              (let useLZO = ((case opts of Some ops \<Rightarrow> UseLZO ops | None \<Rightarrow> False) \<and> isDXT paxType);
                   afterLZO =
                     (if useLZO then
                        (case lzoCompress ext compressedData of
                           Inl cerr \<Rightarrow> Inl cerr
                         | Inr packed \<Rightarrow>
                             if length packed < length compressedData then Inr (packed, True)
                             else Inr (compressedData, False))
                      else Inr (compressedData, False))
               in (case afterLZO of
                     Inl e \<Rightarrow> Inl e
                   | Inr (d1, useLZ) \<Rightarrow>
                       (let afterLZSS =
                              (if \<not> isDXT paxType then
                                 (case lzssCompress ext d1 of
                                    Inl cerr \<Rightarrow> Inl cerr
                                  | Inr packed \<Rightarrow>
                                      (let forceLZSS =
                                             (case opts of Some ops \<Rightarrow> ForceLZSS ops | None \<Rightarrow> False)
                                       in if forceLZSS \<or> length packed < length d1 then Inr packed
                                          else Inr d1))
                               else Inr d1)
                        in (case afterLZSS of
                              Inl e \<Rightarrow> Inl e
                            | Inr d2 \<Rightarrow>
                                Inr \<lparr>mdata = d2, mw = int (Dx encodeImg), mh = int (Dy encodeImg),
                                     museLZ = useLZ\<rparr>))))))"

fun encodeMips ::
  "externals \<Rightarrow> EncodeOptions option \<Rightarrow> PaxType \<Rightarrow> image list \<Rightarrow> mipBlock list
     \<Rightarrow> error + mipBlock list"
where
  "encodeMips ext opts paxType [] mips = Inr mips"
| "encodeMips ext opts paxType (m # ms) mips =
     (case encodeMip ext opts paxType m of
        Inl e \<Rightarrow> Inl e
      | Inr blk \<Rightarrow> encodeMips ext opts paxType ms (mips @ [blk]))"

text \<open>The closure \<open>writeTag\<close>: \<open>GGAT\<close>, the name, the payload length, the payload.
  The writer is an in-memory buffer, whose \<open>Write\<close> does not fail.\<close>

definition tagBytes :: "byte list \<Rightarrow> byte list \<Rightarrow> byte list" where
  "tagBytes name payload =
     bytes_of ''GGAT'' @ name @ PutUint32 (of_nat (length payload)) @ payload"

definition writeTag :: "string \<Rightarrow> byte list \<Rightarrow> byte list" where
  "writeTag name payload = tagBytes (bytes_of name) payload"

text \<open>A tag section as it lies in a file: the tags one after the other, each with
  a four-byte name and a payload whose length fits the 32-bit length field.
  \<open>storeTags\<close> is the map that assigning \<open>tags[name] = data\<close> in this order
  builds.\<close>

definition tagSection :: "(byte list \<times> byte list) list \<Rightarrow> byte list" where
  "tagSection tgs = concat (map (\<lambda>t. tagBytes (fst t) (snd t)) tgs)"

definition wfTag :: "byte list \<times> byte list \<Rightarrow> bool" where
  "wfTag t = (length (fst t) = 4 \<and> length (snd t) < 2 ^ 32)"

definition storeTags :: "(byte list \<times> byte list) list \<Rightarrow> tags \<Rightarrow> tags" where
  "storeTags tgs m = fold (\<lambda>t m. m(fst t \<mapsto> snd t)) tgs m"

text \<open>The SFFO table: 16 zeroed slots, of which the loop
  \<open>for i := 0; i < len(mips) && i < 16; i++\<close> fills the first ones with \<open>uint32(off)\<close>.\<close>

fun sffoTable :: "nat \<Rightarrow> int \<Rightarrow> mipBlock list \<Rightarrow> 32 word list" where
  "sffoTable 0 off mips = []"
| "sffoTable (Suc k) off [] = 0 # sffoTable k off []"
| "sffoTable (Suc k) off (m # ms) =
     of_int off # sffoTable k (off + (2 + 2 + 3 + int (length (mdata m)))) ms"

definition baseOffset :: "bool \<Rightarrow> bool \<Rightarrow> int" where
  "baseOffset writeGALF writeZIWS =
     (let offset = 2 + 16 + 16;
          offset1 = (if writeGALF then offset + 16 else offset);
          offset2 = (if writeZIWS then offset1 + 16 else offset1)
      in offset2 + (76 + 2))"

text \<open>One round of the loop that writes the mip blocks.\<close>

definition writeMip :: "mipBlock \<Rightarrow> error + byte list" where
  "writeMip m =
     (if mw m < 0 \<or> mh m < 0 then Inl ErrInvalidDimensions
      else if museLZ m \<and> mw m > 0x7fff then Inl ErrInvalidDimensions
      else if \<not> museLZ m \<and> mw m > 0xffff then Inl ErrInvalidDimensions
      else if mh m > 0xffff then Inl ErrInvalidDimensions
      else
        (let storedW = (if museLZ m then mw m OR 0x8000 else mw m);
             dLen = length (mdata m)
         in Inr (PutUint16 (of_int storedW) @ PutUint16 (of_int (mh m)) @
                 [of_nat dLen, of_nat (drop_bit 8 dLen), of_nat (drop_bit 16 dLen)] @
                 mdata m)))"

fun writeMips :: "mipBlock list \<Rightarrow> error + byte list" where
  "writeMips [] = Inr []"
| "writeMips (m # ms) =
     (case writeMip m of
        Inl e \<Rightarrow> Inl e
      | Inr bs \<Rightarrow> (case writeMips ms of Inl e \<Rightarrow> Inl e | Inr rest \<Rightarrow> Inr (bs @ rest)))"

text \<open>The second half of \<open>EncodeWithOptions\<close>, from ``Write PaxType as first tag'':
  everything that is written, in order.\<close>

definition writePAA ::
  "PaxType \<Rightarrow> byte list \<Rightarrow> byte list \<Rightarrow> bool \<Rightarrow> byte \<Rightarrow> bool \<Rightarrow> byte list \<Rightarrow> mipBlock list
     \<Rightarrow> error + byte list"
where
  "writePAA paxType cgva cxam writeGALF galfValue writeZIWS ziwsTag mips =
     (let sffo = concat (map PutUint32 (sffoTable 16 (baseOffset writeGALF writeZIWS) mips))
      in (case writeMips mips of
            Inl e \<Rightarrow> Inl e
          | Inr blocks \<Rightarrow>
              Inr (PaxType_Bytes paxType @
                   writeTag ''CGVA'' cgva @
                   writeTag ''CXAM'' cxam @
                   (if writeGALF then writeTag ''GALF'' [galfValue, 0, 0, 0] else []) @
                   (if writeZIWS then writeTag ''ZIWS'' ziwsTag else []) @
                   writeTag ''SFFO'' sffo @
                   [0, 0] @
                   blocks @
                   [0, 0, 0, 0, 0, 0])))"

text \<open>Average and maximum colour over the pixels of the source image.\<close>

definition avgChannel :: "(NRGBA \<Rightarrow> byte) \<Rightarrow> image \<Rightarrow> byte" where
  "avgChannel ch img =
     (let total = sum_list (map (\<lambda>c. unat (ch c)) (scan img));
          pixelCount = Dx img * Dy img
      in of_nat (if pixelCount > 0 then total div pixelCount else total))"

definition maxChannel :: "(NRGBA \<Rightarrow> byte) \<Rightarrow> image \<Rightarrow> byte" where
  "maxChannel ch img = fold (\<lambda>c m. if ch c > m then ch c else m) (scan img) 0"

text \<open>The local variables of \<open>EncodeWithOptions\<close> that depend on the options and
  the source image only: \<open>paxType\<close>, \<open>writeGALF\<close>, \<open>galfValue\<close>, \<open>writeZIWS\<close>,
  \<open>ziwsTag\<close>, the mip images, and the payloads of CGVA and CXAM.\<close>

definition encPaxType :: "image \<Rightarrow> EncodeOptions option \<Rightarrow> PaxType" where
  "encPaxType statImg opts =
     (let imgHasAlpha = list_ex (\<lambda>c. cA c < 255) (scan statImg) in
      case opts of
        Some ops \<Rightarrow>
          if OType ops \<noteq> PaxAuto then OType ops
          else if NormalMapSwizzle ops then PaxDXT5
          else if imgHasAlpha then PaxDXT5 else PaxDXT1
      | None \<Rightarrow> if imgHasAlpha then PaxDXT5 else PaxDXT1)"

definition encWriteGALF :: "EncodeOptions option \<Rightarrow> PaxType \<Rightarrow> bool" where
  "encWriteGALF opts paxType =
     (case opts of Some ops \<Rightarrow> WriteGALF ops | None \<Rightarrow> paxType = PaxDXT5)"

definition encGalfValue :: "EncodeOptions option \<Rightarrow> byte" where
  "encGalfValue opts =
     (case opts of
        Some ops \<Rightarrow> if WriteGALF ops \<and> GALFValue ops \<noteq> 0 then GALFValue ops else 1
      | None \<Rightarrow> 1)"

definition encWriteZIWS :: "EncodeOptions option \<Rightarrow> bool" where
  "encWriteZIWS opts =
     (case opts of
        Some ops \<Rightarrow> WriteNohqSwizzleTag ops \<or> WriteSwizzleTag ops
      | None \<Rightarrow> False)"

definition encZiwsTag :: "EncodeOptions option \<Rightarrow> byte4" where
  "encZiwsTag opts =
     (case opts of
        Some ops \<Rightarrow>
          if WriteSwizzleTag ops then SwizzleTag ops
          else if WriteNohqSwizzleTag ops then (0x05, 0x04, 0x02, 0x03)
          else (0, 0, 0, 0)
      | None \<Rightarrow> (0, 0, 0, 0))"

definition encMipImages :: "externals \<Rightarrow> image \<Rightarrow> EncodeOptions option \<Rightarrow> PaxType \<Rightarrow> image list" where
  "encMipImages ext statImg opts paxType =
     (let generateMips =
            (case opts of
               Some ops \<Rightarrow> (case GenerateMipmaps ops of Some g \<Rightarrow> g | None \<Rightarrow> True)
             | None \<Rightarrow> True);
          maxMipCount =
            (case opts of
               Some ops \<Rightarrow> if MaxMipCount ops > 0 then MaxMipCount ops else 0
             | None \<Rightarrow> 0);
          minMipSize0 = (if \<not> isDXT paxType then 1 else 4);
          minMipSize =
            (case opts of
               Some ops \<Rightarrow> if MinMipSize ops > 0 then MinMipSize ops else minMipSize0
             | None \<Rightarrow> minMipSize0);
          useSRGB = (case opts of Some ops \<Rightarrow> UseSRGB ops | None \<Rightarrow> False);
          mipFilter =
            (case opts of
               Some ops \<Rightarrow> (case OMipmapFilter ops of Some f \<Rightarrow> f | None \<Rightarrow> MipmapFilterDefault)
             | None \<Rightarrow> MipmapFilterDefault)
      in if generateMips
         then takeMips (generateMipmapsWithFilter ext statImg useSRGB mipFilter)
                maxMipCount minMipSize []
         else [statImg])"

definition encCGVA :: "image \<Rightarrow> byte list" where
  "encCGVA statImg =
     [avgChannel cB statImg, avgChannel cG statImg, avgChannel cR statImg, avgChannel cA statImg]"

definition encCXAM :: "image \<Rightarrow> EncodeOptions option \<Rightarrow> PaxType \<Rightarrow> byte list" where
  "encCXAM statImg opts paxType =
     (let nms = (case opts of Some ops \<Rightarrow> NormalMapSwizzle ops | None \<Rightarrow> False);
          forced = (case opts of Some ops \<Rightarrow> ForceCXAMFull ops | None \<Rightarrow> isDXT paxType)
      in if nms \<or> forced then [255, 255, 255, 255]
         else [maxChannel cB statImg, maxChannel cG statImg,
               maxChannel cR statImg, maxChannel cA statImg])"

definition EncodeWithOptions :: "externals \<Rightarrow> image \<Rightarrow> EncodeOptions option \<Rightarrow> error + byte list" where
  "EncodeWithOptions ext img opts =
     (let statImg = img;
          paxType = encPaxType statImg opts;
          mipImages = encMipImages ext statImg opts paxType
      in (case encodeMips ext opts paxType mipImages [] of
            Inl e \<Rightarrow> Inl e
          | Inr mips \<Rightarrow>
              writePAA paxType (encCGVA statImg) (encCXAM statImg opts paxType)
                (encWriteGALF opts paxType) (encGalfValue opts)
                (encWriteZIWS opts) (bytes4 (encZiwsTag opts)) mips))"

text \<open>The non-zero SFFO offsets and the tag map of a file, as \<open>DecodePAA\<close> and
  \<open>DecodeMetadata\<close> compute them before they read the mip blocks.\<close>

definition fileTags :: "byte list \<Rightarrow> error + tags" where
  "fileTags stream =
     (case readPaxType \<lparr>rdata = stream, rpos = 0\<rparr> of
        Inl e \<Rightarrow> Inl e
      | Inr (pType, r1) \<Rightarrow>
          (case readGGATTags r1 of
             Inl e \<Rightarrow> Inl e
           | Inr (tgs, r2) \<Rightarrow> Inr tgs))"

definition fileOffsets :: "byte list \<Rightarrow> error + 32 word list" where
  "fileOffsets stream =
     (case fileTags stream of
        Inl e \<Rightarrow> Inl e
      | Inr tgs \<Rightarrow> sffoOffsets tgs)"

subsection \<open>Notions used to state the properties\<close>

text \<open>A channel in its 4-bit-quantised form: the low four bits zero
  (\<open>value & 0xF0\<close>).\<close>

definition quantize4 :: "NRGBA \<Rightarrow> NRGBA" where
  "quantize4 c = \<lparr>cR = cR c AND 0xF0, cG = cG c AND 0xF0, cB = cB c AND 0xF0, cA = cA c AND 0xF0\<rparr>"

text \<open>The four bytes of a pixel in an NRGBA buffer.\<close>

definition pixBytes :: "NRGBA \<Rightarrow> byte list" where
  "pixBytes c = [cR c, cG c, cB c, cA c]"


text \<open>A two-pixel image for closed examples.\<close>

definition twoPixels :: image where
  "twoPixels =
     \<lparr>Dx = 2, Dy = 1,
      At = (\<lambda>x y. if x = 0 then \<lparr>cR = 0x12, cG = 0x34, cB = 0x56, cA = 0x78\<rparr>
                   else \<lparr>cR = 0xFF, cG = 0x0F, cB = 0xA5, cA = 0x80\<rparr>)\<rparr>"

text \<open>Concrete values for closed examples: a config with every toggle set, a
  state of the process-wide default before its first use, a DXT5 file whose ZIWS
  tag selects the constant \<open>0x09\<close> for red, a one-pixel image with alpha \<open>0xF0\<close>,
  and a hint with the format \<open>Default\<close> and no swizzle.\<close>

definition customConfig :: TexConvertConfig where
  "customConfig =
     \<lparr>Hints = [], ConvertVersion = 6, ApplyDefaultErrorMetrics = True,
      UseSRGBFromDynRange = True, DisableAutoReduce = True, DisableLZO = True\<rparr>"

definition freshDefault :: defaultState where
  "freshDefault = \<lparr>onceDone = False, defaultTexConvertCfgv = customConfig\<lparr>ConvertVersion := 0\<rparr>\<rparr>"


definition zeroRedFile :: PAA where
  "zeroRedFile =
     \<lparr>Taggs = [bytes_of ''ZIWS'' \<mapsto> [0x00, 0x09, 0x02, 0x03]], MipMaps = [], PType = PaxDXT5\<rparr>"

definition opaqueF0 :: image where
  "opaqueF0 = \<lparr>Dx = 1, Dy = 1, At = (\<lambda>x y. \<lparr>cR = 10, cG = 20, cB = 30, cA = 0xF0\<rparr>)\<rparr>"

definition zeroSwizzleExpr :: SwizzleExpr where
  "zeroSwizzleExpr = \<lparr>Source = SwizzleA, Valid = False, IsConst = False, ConstValue = 0, Invert = False\<rparr>"

definition defaultFormatHint :: TextureHint where
  "defaultFormatHint =
     \<lparr>EnableDXT = None, DynRange = None, AutoReduce = None, VirtualSwz = None, Dithering = None,
      ClassName = ''ColorMapAuto'', Extends = [], Pattern = ''*_auto.*'',
      Swizzle = \<lparr>swzR = zeroSwizzleExpr, swzG = zeroSwizzleExpr, swzB = zeroSwizzleExpr,
                 swzA = zeroSwizzleExpr\<rparr>,
      Format = TexFormatDefault, HMipmapFilter = MipmapFilterDefault,
      HErrorMetrics = ErrorMetricsDefault, LimitSize = 0\<rparr>"

subsection \<open>Notions used to state the encoder properties\<close>

text \<open>The tags that \<open>writePAA\<close> writes, in their order, as (name, payload) pairs.\<close>

definition encTags ::
  "byte list \<Rightarrow> byte list \<Rightarrow> bool \<Rightarrow> byte \<Rightarrow> bool \<Rightarrow> byte list \<Rightarrow> mipBlock list
     \<Rightarrow> (byte list \<times> byte list) list"
where
  "encTags cgva cxam writeGALF galfValue writeZIWS ziwsTag mips =
     [(bytes_of ''CGVA'', cgva), (bytes_of ''CXAM'', cxam)] @
     (if writeGALF then [(bytes_of ''GALF'', [galfValue, 0, 0, 0])] else []) @
     (if writeZIWS then [(bytes_of ''ZIWS'', ziwsTag)] else []) @
     [(bytes_of ''SFFO'',
       concat (map PutUint32 (sffoTable 16 (baseOffset writeGALF writeZIWS) mips)))]"

text \<open>What one level adds to the running offset: \<open>2 + 2 + 3 + len(mips[i].data)\<close>.\<close>

definition levelSize :: "mipBlock \<Rightarrow> int" where
  "levelSize m = 2 + 2 + 3 + int (length (mdata m))"

text \<open>The size of everything before the first mip block, counted part by part:
  magic, CGVA tag, CXAM tag, GALF and ZIWS tags when written, the 12-byte head of the
  SFFO tag, its 64-byte payload and the two-byte sentinel.\<close>

definition headerSize :: "bool \<Rightarrow> bool \<Rightarrow> int" where
  "headerSize galf ziws =
     2 + 16 + 16 + (if galf then 16 else 0) + (if ziws then 16 else 0) + 12 + 64 + 2"

text \<open>The same size as the specification counts it: header (2), fixed tags CGVA (16),
  CXAM (16), SFFO (16), 16 each for GALF and ZIWS, the 64-byte SFFO payload, the
  two-byte sentinel.\<close>

definition specHeaderSize :: "bool \<Rightarrow> bool \<Rightarrow> int" where
  "specHeaderSize galf ziws =
     2 + (16 + 16 + 16) + (if galf then 16 else 0) + (if ziws then 16 else 0) + 64 + 2"

text \<open>Stand-ins for the external collaborators in closed examples: a mip generator
  that halves both dimensions down to \<open>1 \<times> 1\<close>, no block encoder, no LZO, and an
  LZSS that never shrinks its input.\<close>

fun halfChain :: "nat \<Rightarrow> image \<Rightarrow> image list" where
  "halfChain 0 img = [img]"
| "halfChain (Suc n) img =
     (if Dx img \<le> 1 \<and> Dy img \<le> 1 then [img]
      else img # halfChain n
             \<lparr>Dx = max 1 (Dx img div 2), Dy = max 1 (Dy img div 2),
              At = (\<lambda>x y. At img (2 * x) (2 * y))\<rparr>)"

definition stubExternals :: externals where
  "stubExternals =
     \<lparr>swizzleNormalMap = (\<lambda>img. img),
      generateMipmapsWithFilter = (\<lambda>img useSRGB flt. halfChain 16 img),
      bcnEncode = (\<lambda>img fmt bo. Inl (ExternalErr ''no block encoder'')),
      luminance = cG,
      lzoCompress = (\<lambda>d. Inl (ExternalErr ''no LZO'')),
      lzssCompress = (\<lambda>d. Inr (d @ [0, 0, 0, 0]))\<rparr>"

text \<open>Options for an ARGB4444 file without a mip chain, and the file that encoding
  \<open>twoPixels\<close> with them gives.\<close>

definition argb4NoMips :: EncodeOptions where
  "argb4NoMips = (zeroEncodeOptions PaxARGB4)\<lparr>GenerateMipmaps := Some False\<rparr>"

definition singleMipFile :: "byte list" where
  "singleMipFile =
     [68, 68,
      71, 71, 65, 84, 67, 71, 86, 65, 4, 0, 0, 0, 125, 33, 136, 124,
      71, 71, 65, 84, 67, 88, 65, 77, 4, 0, 0, 0, 165, 52, 255, 128,
      71, 71, 65, 84, 83, 70, 70, 79, 64, 0, 0, 0,
      112, 0, 0, 0, 0, 0, 0, 0, 0, 0, 0, 0, 0, 0, 0, 0,
      0, 0, 0, 0, 0, 0, 0, 0, 0, 0, 0, 0, 0, 0, 0, 0,
      0, 0, 0, 0, 0, 0, 0, 0, 0, 0, 0, 0, 0, 0, 0, 0,
      0, 0, 0, 0, 0, 0, 0, 0, 0, 0, 0, 0, 0, 0, 0, 0,
      0, 0,
      2, 0, 1, 0, 4, 0, 0, 49, 117, 15, 138,
      0, 0, 0, 0, 0, 0]"

text \<open>The bytes of one mip block as \<open>writeMip\<close> writes them when the dimensions
  pass its checks.\<close>

definition mipBlockBytes :: "mipBlock \<Rightarrow> byte list" where
  "mipBlockBytes m =
     (let storedW = (if museLZ m then mw m OR 0x8000 else mw m);
          dLen = length (mdata m)
      in PutUint16 (of_int storedW) @ PutUint16 (of_int (mh m)) @
         [of_nat dLen, of_nat (drop_bit 8 dLen), of_nat (drop_bit 16 dLen)] @
         mdata m)"






subsection \<open>Hints of the built-in table and stand-ins for the block codec\<close>











section \<open>Proofs\<close>

declare readGGATTagsLoop.simps [simp del]

subsection \<open>Little-endian fields and the reader\<close>

lemma u32le_PutUint32: "PutUint32 v = [a, b, c, d] \<Longrightarrow> u32le a b c d = v"
  unfolding u32le_def PutUint32_def
  apply clarsimp
  apply (rule bit_word_eqI)
  subgoal for n
    by (cases "n < 8"; cases "n < 16"; cases "n < 24") (auto simp add: bit_simps)
  done

lemma u16le_PutUint16: "PutUint16 v = [a, b] \<Longrightarrow> u16le a b = v"
  unfolding u16le_def PutUint16_def
  apply clarsimp
  apply (rule bit_word_eqI)
  apply (auto simp add: bit_simps)
  done

lemma length_PutUint32: "length (PutUint32 v) = 4"
  by (simp add: PutUint32_def)

lemma length_PutUint16: "length (PutUint16 v) = 2"
  by (simp add: PutUint16_def)

lemma ReadFull_at:
  assumes "drop (rpos r) (rdata r) = xs @ rest" and "length xs = n" and "0 < n"
  shows "ReadFull r n = Inr (xs, r\<lparr>rpos := rpos r + n\<rparr>)"
proof -
  have len: "length (rdata r) - rpos r = length xs + length rest"
    using arg_cong [OF assms(1), of length] by simp
  have "take (length xs) (drop (rpos r) (rdata r)) = xs"
    using assms(1) by simp
  with len assms(2,3) show ?thesis
    by (auto simp: ReadFull_def)
qed

lemma drop_after:
  assumes "drop p d = xs @ rest"
  shows "drop (p + length xs) d = rest"
proof -
  have "drop (p + length xs) d = drop (length xs) (drop p d)"
    by (simp add: add.commute)
  then show ?thesis using assms by simp
qed

lemma drop_to:
  assumes "drop p d = xs @ rest" and "length xs = n" and "q = p + n"
  shows "drop q d = rest"
  using drop_after [OF assms(1)] assms(2,3) by simp

lemma readUint32_at:
  assumes "drop (rpos r) (rdata r) = PutUint32 v @ rest"
  shows "readUint32 r = Inr (v, r\<lparr>rpos := rpos r + 4\<rparr>)"
proof -
  obtain a b c d where abcd: "PutUint32 v = [a, b, c, d]"
    by (simp add: PutUint32_def)
  have "ReadFull r 4 = Inr (PutUint32 v, r\<lparr>rpos := rpos r + 4\<rparr>)"
    by (rule ReadFull_at [OF assms]) (simp_all add: PutUint32_def)
  then have "ReadFull r 4 = Inr ([a, b, c, d], r\<lparr>rpos := rpos r + 4\<rparr>)"
    by (simp add: abcd)
  then show ?thesis
    by (simp add: readUint32_def u32le_PutUint32 [OF abcd])
qed

lemma readUint16_at:
  assumes "drop (rpos r) (rdata r) = PutUint16 v @ rest"
  shows "readUint16 r = Inr (v, r\<lparr>rpos := rpos r + 2\<rparr>)"
proof -
  obtain a b where ab: "PutUint16 v = [a, b]"
    by (simp add: PutUint16_def)
  have "ReadFull r 2 = Inr (PutUint16 v, r\<lparr>rpos := rpos r + 2\<rparr>)"
    by (rule ReadFull_at [OF assms]) (simp_all add: PutUint16_def)
  then show ?thesis
    by (simp add: readUint16_def ab u16le_PutUint16 [OF ab])
qed

subsection \<open>Reading a tag section\<close>

lemma readTag_tag:
  assumes d: "drop (rpos r) (rdata r) = tagBytes n p @ rest"
    and n: "length n = 4" and p: "length p < 2 ^ 32"
  shows "readTag r = Inr (Some (n, p), r\<lparr>rpos := rpos r + (12 + length p)\<rparr>)"
proof -
  let ?g = "bytes_of ''GGAT''"
  let ?len = "PutUint32 (of_nat (length p))"
  have g4: "length ?g = 4" by (simp add: bytes_of_def)
  have d0: "drop (rpos r) (rdata r) = ?g @ (n @ ?len @ p @ rest)"
    using d by (simp add: tagBytes_def)
  have s1: "ReadFull r 4 = Inr (?g, r\<lparr>rpos := rpos r + 4\<rparr>)"
    using ReadFull_at [OF d0 g4] by simp
  let ?r1 = "r\<lparr>rpos := rpos r + 4\<rparr>"
  have d1: "drop (rpos ?r1) (rdata ?r1) = n @ (?len @ p @ rest)"
    using drop_after [OF d0] g4 by simp
  have s2: "ReadFull ?r1 4 = Inr (n, ?r1\<lparr>rpos := rpos ?r1 + 4\<rparr>)"
    using ReadFull_at [OF d1 n] by simp
  let ?r2 = "r\<lparr>rpos := rpos r + 8\<rparr>"
  have d2: "drop (rpos ?r2) (rdata ?r2) = ?len @ (p @ rest)"
    using drop_after [OF d1] n by (simp add: add.assoc)
  have s3: "readUint32 ?r2 = Inr (of_nat (length p), ?r2\<lparr>rpos := rpos ?r2 + 4\<rparr>)"
    by (rule readUint32_at [OF d2])
  let ?r3 = "r\<lparr>rpos := rpos r + 12\<rparr>"
  have d3: "drop (rpos ?r3) (rdata ?r3) = p @ rest"
    using drop_after [OF d2] by (simp add: length_PutUint32 add.assoc)
  have un: "unat (of_nat (length p) :: 32 word) = length p"
    using p by (simp add: unat_of_nat)
  have s4: "ReadFull ?r3 (length p) = Inr (p, r\<lparr>rpos := rpos r + (12 + length p)\<rparr>)"
  proof (cases "p = []")
    case True
    then show ?thesis by (simp add: ReadFull_def)
  next
    case False
    from False have "0 < length p" by simp
    from ReadFull_at [OF d3 refl this] show ?thesis by (simp add: add.assoc)
  qed
  show ?thesis
    using s1 s2 s3 s4 by (simp add: readTag_def un ac_simps)
qed

lemma readTag_stop:
  assumes d: "drop (rpos r) (rdata r) = sg @ rest"
    and n: "length sg = 4" and ne: "sg \<noteq> bytes_of ''GGAT''"
  shows "readTag r = Inr (None, r\<lparr>rpos := rpos r + 4\<rparr>)"
proof -
  from ReadFull_at [OF d n] ne show ?thesis
    by (simp add: readTag_def)
qed

lemma length_tagBytes: "length n = 4 \<Longrightarrow> length (tagBytes n p) = 12 + length p"
  by (simp add: tagBytes_def bytes_of_def length_PutUint32)

lemma tagSection_Nil: "tagSection [] = []"
  by (simp add: tagSection_def)

lemma tagSection_Cons: "tagSection ((n, p) # tgs) = tagBytes n p @ tagSection tgs"
  by (simp add: tagSection_def)

lemma readGGATTagsLoop_stream:
  assumes "drop (rpos r) (rdata r) = tagSection tgs @ sg @ rest"
    and "list_all wfTag tgs" and "length sg = 4" and "sg \<noteq> bytes_of ''GGAT''"
  shows "readGGATTagsLoop m r =
           Inr (storeTags tgs m, r\<lparr>rpos := rpos r + length (tagSection tgs) + 4\<rparr>)"
  using assms
proof (induction tgs arbitrary: m r)
  case Nil
  then show ?case
    using readTag_stop [of r sg rest]
    by (subst readGGATTagsLoop.simps) (simp add: storeTags_def tagSection_Nil)
next
  case (Cons t tgs)
  obtain n p where t: "t = (n, p)" by (cases t)
  from Cons.prems(2) t have n4: "length n = 4" and p32: "length p < 2 ^ 32"
    by (simp_all add: wfTag_def)
  have d: "drop (rpos r) (rdata r) = tagBytes n p @ (tagSection tgs @ sg @ rest)"
    using Cons.prems(1) t by (simp add: tagSection_Cons)
  let ?r' = "r\<lparr>rpos := rpos r + (12 + length p)\<rparr>"
  have step: "readTag r = Inr (Some (n, p), ?r')"
    by (rule readTag_tag [OF d n4 p32])
  have len: "length (tagBytes n p) = 12 + length p"
    using length_tagBytes [OF n4] by simp
  have d': "drop (rpos ?r') (rdata ?r') = tagSection tgs @ sg @ rest"
    using drop_after [OF d] len by simp
  have IH: "readGGATTagsLoop (m(n \<mapsto> p)) ?r' =
              Inr (storeTags tgs (m(n \<mapsto> p)),
                   ?r'\<lparr>rpos := rpos ?r' + length (tagSection tgs) + 4\<rparr>)"
    using Cons.IH [OF d' _ Cons.prems(3) Cons.prems(4)] Cons.prems(2) by simp
  show ?case
    using IH
    by (subst readGGATTagsLoop.simps) (simp add: step t storeTags_def len tagSection_Cons ac_simps)
qed

lemma storeTags_last:
  assumes "tgs = pre @ (n, p) # post" and "n \<notin> fst ` set post"
  shows "storeTags tgs m n = Some p"
proof -
  have notin: "\<And>m. n \<notin> fst ` set post \<Longrightarrow> storeTags post m n = m n"
    unfolding storeTags_def by (induction post) auto
  have app: "\<And>xs ys m. storeTags (xs @ ys) m = storeTags ys (storeTags xs m)"
    by (simp add: storeTags_def)
  show ?thesis
    using assms notin [of "(storeTags pre m)(n \<mapsto> p)"]
    by (simp add: app) (simp add: storeTags_def)
qed

lemma readPaxType_magic:
  assumes "length magic = 2" and "PaxTypeFromBytes magic = Some pType"
  shows "readPaxType \<lparr>rdata = magic @ rest, rpos = 0\<rparr> =
           Inr (pType, \<lparr>rdata = magic @ rest, rpos = 2\<rparr>)"
proof -
  have "ReadFull \<lparr>rdata = magic @ rest, rpos = 0\<rparr> 2 =
          Inr (magic, \<lparr>rdata = magic @ rest, rpos = 0\<rparr>
                       \<lparr>rpos := rpos \<lparr>rdata = magic @ rest, rpos = 0\<rparr> + 2\<rparr>)"
    by (rule ReadFull_at [where rest = rest]) (simp_all add: assms)
  then show ?thesis
    by (simp add: readPaxType_def assms)
qed

lemma readGGATTags_stream:
  assumes "length magic = 2" and "list_all wfTag tgs" and "length sg = 4"
    and "sg \<noteq> bytes_of ''GGAT''"
  shows "readGGATTags \<lparr>rdata = magic @ tagSection tgs @ sg @ rest, rpos = 2\<rparr> =
           Inr (storeTags tgs Map.empty,
                \<lparr>rdata = magic @ tagSection tgs @ sg @ rest,
                 rpos = 2 + length (tagSection tgs) + 4\<rparr>)"
proof -
  let ?r = "\<lparr>rdata = magic @ tagSection tgs @ sg @ rest, rpos = 2\<rparr>"
  have "drop (rpos ?r) (rdata ?r) = tagSection tgs @ sg @ rest"
    using assms(1) by simp
  from readGGATTagsLoop_stream [OF this assms(2,3,4)] show ?thesis
    by (simp add: readGGATTags_def)
qed

lemma PaxTypeFromBytes_DXT1: "PaxTypeFromBytes [1, 255] = Some PaxDXT1"
  by (simp add: PaxTypeFromBytes_def u16le_def)

lemma PaxTypeFromBytes_DXT5: "PaxTypeFromBytes [5, 255] = Some PaxDXT5"
  by (simp add: PaxTypeFromBytes_def u16le_def)

lemma GGAT_bytes: "bytes_of ''GGAT'' = [0x47, 0x47, 0x41, 0x54]"
  by (simp add: bytes_of_def)

subsection \<open>Duplicate tag names\<close>

text \<open>
  Claim C9.  A stream is a valid two-byte magic, a tag section \<open>tgs\<close> (four-byte
  names, payloads that fit the length field) and at least four more bytes that are
  not \<open>GGAT\<close>.  Whatever names repeat in \<open>tgs\<close>, tag parsing succeeds; for a name
  \<open>n\<close> whose last occurrence carries the payload \<open>p\<close> the tag map holds \<open>p\<close>, and
  \<open>DecodePAA\<close> and \<open>DecodeMetadata\<close> continue with exactly this map, which is the
  one they return.
\<close>

theorem duplicate_tags_last_wins:
  assumes stream: "stream = magic @ tagSection tgs @ sg @ rest"
    and magic: "length magic = 2" "PaxTypeFromBytes magic = Some pType"
    and wf: "list_all wfTag tgs"
    and sg: "length sg = 4" "sg \<noteq> bytes_of ''GGAT''"
    and dup: "tgs = pre @ (n, p) # post" "n \<notin> fst ` set post"
  shows "\<exists>tgm r'.
           readGGATTags \<lparr>rdata = stream, rpos = 2\<rparr> = Inr (tgm, r') \<and>
           tgm n = Some p \<and>
           DecodePAA lzoD lzssD stream =
             (case sffoOffsets tgm of
                Inl e \<Rightarrow> Inl e
              | Inr offsets \<Rightarrow>
                  (case readMipMaps lzoD lzssD pType r' offsets [] of
                     Inl e \<Rightarrow> Inl e
                   | Inr mms \<Rightarrow> Inr \<lparr>Taggs = tgm, MipMaps = mms, PType = pType\<rparr>)) \<and>
           DecodeMetadata stream =
             (case sffoOffsets tgm of
                Inl e \<Rightarrow> Inl e
              | Inr offsets \<Rightarrow>
                  (case readMipHeaders pType r' offsets [] of
                     Inl e \<Rightarrow> Inl e
                   | Inr hs \<Rightarrow> Inr \<lparr>MTaggs = tgm, MipHeaders = hs, MType = pType\<rparr>))"
proof -
  let ?tgm = "storeTags tgs Map.empty"
  let ?r' = "\<lparr>rdata = stream, rpos = 2 + length (tagSection tgs) + 4\<rparr>"
  have rp: "readPaxType \<lparr>rdata = stream, rpos = 0\<rparr> = Inr (pType, \<lparr>rdata = stream, rpos = 2\<rparr>)"
    unfolding stream by (rule readPaxType_magic [OF magic])
  have rt: "readGGATTags \<lparr>rdata = stream, rpos = 2\<rparr> = Inr (?tgm, ?r')"
    unfolding stream by (rule readGGATTags_stream [OF magic(1) wf sg])
  have last: "?tgm n = Some p"
    by (rule storeTags_last [OF dup])
  have dp: "DecodePAA lzoD lzssD stream =
             (case sffoOffsets ?tgm of
                Inl e \<Rightarrow> Inl e
              | Inr offsets \<Rightarrow>
                  (case readMipMaps lzoD lzssD pType ?r' offsets [] of
                     Inl e \<Rightarrow> Inl e
                   | Inr mms \<Rightarrow> Inr \<lparr>Taggs = ?tgm, MipMaps = mms, PType = pType\<rparr>))"
    by (simp only: DecodePAA_def rp rt sum.case prod.case)
  have dm: "DecodeMetadata stream =
             (case sffoOffsets ?tgm of
                Inl e \<Rightarrow> Inl e
              | Inr offsets \<Rightarrow>
                  (case readMipHeaders pType ?r' offsets [] of
                     Inl e \<Rightarrow> Inl e
                   | Inr hs \<Rightarrow> Inr \<lparr>MTaggs = ?tgm, MipHeaders = hs, MType = pType\<rparr>))"
    by (simp only: DecodeMetadata_def rp rt sum.case prod.case)
  from rt last dp dm show ?thesis by blast
qed

theorem duplicate_tags_last_wins_witness:
  "\<exists>tgm r'.
     readGGATTags
       \<lparr>rdata = [5, 255] @
                tagSection [(bytes_of ''ZIWS'', [1, 2, 3, 4]), (bytes_of ''ZIWS'', [5, 4, 2, 3])] @
                [0, 0, 0, 0] @ [],
        rpos = 2\<rparr> = Inr (tgm, r') \<and>
     tgm (bytes_of ''ZIWS'') = Some [5, 4, 2, 3] \<and>
     DecodePAA noDecompress noDecompress
       ([5, 255] @
        tagSection [(bytes_of ''ZIWS'', [1, 2, 3, 4]), (bytes_of ''ZIWS'', [5, 4, 2, 3])] @
        [0, 0, 0, 0] @ []) =
       (case sffoOffsets tgm of
          Inl e \<Rightarrow> Inl e
        | Inr offsets \<Rightarrow>
            (case readMipMaps noDecompress noDecompress PaxDXT5 r' offsets [] of
               Inl e \<Rightarrow> Inl e
             | Inr mms \<Rightarrow> Inr \<lparr>Taggs = tgm, MipMaps = mms, PType = PaxDXT5\<rparr>)) \<and>
     DecodeMetadata
       ([5, 255] @
        tagSection [(bytes_of ''ZIWS'', [1, 2, 3, 4]), (bytes_of ''ZIWS'', [5, 4, 2, 3])] @
        [0, 0, 0, 0] @ []) =
       (case sffoOffsets tgm of
          Inl e \<Rightarrow> Inl e
        | Inr offsets \<Rightarrow>
            (case readMipHeaders PaxDXT5 r' offsets [] of
               Inl e \<Rightarrow> Inl e
             | Inr hs \<Rightarrow> Inr \<lparr>MTaggs = tgm, MipHeaders = hs, MType = PaxDXT5\<rparr>))"
proof (rule duplicate_tags_last_wins
         [where pre = "[(bytes_of ''ZIWS'', [1, 2, 3, 4])]" and post = "[]"])
  show "PaxTypeFromBytes [5, 255] = Some PaxDXT5" by (rule PaxTypeFromBytes_DXT5)
  show "list_all wfTag [(bytes_of ''ZIWS'', [1, 2, 3, 4]), (bytes_of ''ZIWS'', [5, 4, 2, 3])]"
    by (simp add: wfTag_def bytes_of_def)
  show "[0, 0, 0, 0] \<noteq> bytes_of ''GGAT''" by (simp add: bytes_of_def)
qed simp_all


subsection \<open>An SFFO tag without offsets\<close>

lemma sffoOffsets_all_zero:
  assumes "tgm (bytes_of ''SFFO'') = Some sffo" and "list_all (\<lambda>v. v = 0) (sffoEntries sffo)"
  shows "sffoOffsets tgm = Inl (Errorf ErrMissingSFFO '': no non-zero offsets'')"
proof -
  have "filter (\<lambda>v. v \<noteq> 0) (sffoEntries sffo) = []"
    using assms(2) by (induction "sffoEntries sffo") (auto simp: list_all_iff filter_empty_conv)
  then show ?thesis
    by (simp add: sffoOffsets_def assms(1))
qed


text \<open>
  Claim C10.  When the magic and the tag section of a stream parse and the \<open>SFFO\<close>
  payload holds only zero entries, \<open>DecodePAA\<close> and \<open>DecodeMetadata\<close> both fail
  with an error that \<open>errors.Is\<close> matches with \<open>ErrMissingSFFO\<close>; neither returns a
  result with an empty mip list.
\<close>

theorem zero_SFFO_is_MissingSFFO:
  assumes "readPaxType \<lparr>rdata = stream, rpos = 0\<rparr> = Inr (pType, r1)"
    and "readGGATTags r1 = Inr (tgm, r2)"
    and "tgm (bytes_of ''SFFO'') = Some sffo"
    and "list_all (\<lambda>v. v = 0) (sffoEntries sffo)"
  shows "(\<exists>e. DecodePAA lzoD lzssD stream = Inl e \<and> errorsIs e ErrMissingSFFO) \<and>
         (\<exists>e. DecodeMetadata stream = Inl e \<and> errorsIs e ErrMissingSFFO)"
  using assms(1,2) sffoOffsets_all_zero [of tgm sffo, OF assms(3,4)]
  by (simp add: DecodePAA_def DecodeMetadata_def)


theorem zero_SFFO_is_MissingSFFO_witness:
  "(\<exists>e. DecodePAA noDecompress noDecompress
           ([1, 255] @ tagSection [(bytes_of ''SFFO'', replicate 64 0)] @ [0, 0, 0, 0] @ [0, 0, 0, 0])
         = Inl e \<and> errorsIs e ErrMissingSFFO) \<and>
   (\<exists>e. DecodeMetadata
           ([1, 255] @ tagSection [(bytes_of ''SFFO'', replicate 64 0)] @ [0, 0, 0, 0] @ [0, 0, 0, 0])
         = Inl e \<and> errorsIs e ErrMissingSFFO)"
proof (rule zero_SFFO_is_MissingSFFO)
  show "readPaxType
          \<lparr>rdata = [1, 255] @ tagSection [(bytes_of ''SFFO'', replicate 64 0)] @ [0, 0, 0, 0] @ [0, 0, 0, 0],
           rpos = 0\<rparr> =
        Inr (PaxDXT1,
          \<lparr>rdata = [1, 255] @ tagSection [(bytes_of ''SFFO'', replicate 64 0)] @ [0, 0, 0, 0] @ [0, 0, 0, 0],
           rpos = 2\<rparr>)"
    by (rule readPaxType_magic) (simp_all add: PaxTypeFromBytes_DXT1)
  show "readGGATTags
          \<lparr>rdata = [1, 255] @ tagSection [(bytes_of ''SFFO'', replicate 64 0)] @ [0, 0, 0, 0] @ [0, 0, 0, 0],
           rpos = 2\<rparr> =
        Inr (storeTags [(bytes_of ''SFFO'', replicate 64 0)] Map.empty,
          \<lparr>rdata = [1, 255] @ tagSection [(bytes_of ''SFFO'', replicate 64 0)] @ [0, 0, 0, 0] @ [0, 0, 0, 0],
           rpos = 2 + length (tagSection [(bytes_of ''SFFO'', replicate 64 0)]) + 4\<rparr>)"
    by (rule readGGATTags_stream) (simp_all add: wfTag_def bytes_of_def)
  show "storeTags [(bytes_of ''SFFO'', replicate 64 0)] Map.empty (bytes_of ''SFFO'') =
          Some (replicate 64 0)"
    by (simp add: storeTags_def)
  show "list_all (\<lambda>v. v = 0) (sffoEntries (replicate 64 0))"
    by (simp add: eval_nat_numeral u32le_def)
qed

subsection \<open>One mip block of a DXT format\<close>

lemma readMipMap_block:
  assumes d: "drop (rpos r) (rdata r) = PutUint16 w @ PutUint16 h @ [s0, s1, s2] @ payload @ rest"
    and len: "length payload = storedSizeOf [s0, s1, s2]"
  shows "readMipMap lzoD lzssD r paxType =
     (if w = 0 \<and> h = 0 then Inr (None, r\<lparr>rpos := rpos r + 4\<rparr>)
      else if expectedMipSize paxType (uint (mipWidth paxType w)) (uint h) < 0
        then Inl ErrUnsupportedPixelFmt
      else if int (length payload) = expectedMipSize paxType (uint (mipWidth paxType w)) (uint h)
        then Inr (Some \<lparr>Data = payload, Type = paxType, Width = mipWidth paxType w, Height = h\<rparr>,
                  r\<lparr>rpos := rpos r + (7 + length payload)\<rparr>)
      else if isDXT paxType then
        (if (w AND 0x8000) = 0 then Inl ErrInsufficientData
         else (case lzoD payload (nat (expectedMipSize paxType (uint (mipWidth paxType w)) (uint h))) of
                 Inl e \<Rightarrow> Inl (Join ErrLZODecompress e)
               | Inr dec \<Rightarrow>
                   Inr (Some \<lparr>Data = dec, Type = paxType, Width = mipWidth paxType w, Height = h\<rparr>,
                        r\<lparr>rpos := rpos r + (7 + length payload)\<rparr>)))
      else
        (case lzssD payload (nat (expectedMipSize paxType (uint (mipWidth paxType w)) (uint h))) of
           Inl e \<Rightarrow> Inl (Join ErrLZSSDecompress e)
         | Inr dec \<Rightarrow>
             Inr (Some \<lparr>Data = dec, Type = paxType, Width = mipWidth paxType w, Height = h\<rparr>,
                  r\<lparr>rpos := rpos r + (7 + length payload)\<rparr>)))"
proof -
  have s1: "readUint16 r = Inr (w, r\<lparr>rpos := rpos r + 2\<rparr>)"
    by (rule readUint16_at [OF d])
  let ?r1 = "r\<lparr>rpos := rpos r + 2\<rparr>"
  have e1: "drop (rpos r + 2) (rdata r) = PutUint16 h @ ([s0, s1, s2] @ payload @ rest)"
    by (rule drop_to [OF d]) (simp_all add: length_PutUint16)
  have d1: "drop (rpos ?r1) (rdata ?r1) = PutUint16 h @ ([s0, s1, s2] @ payload @ rest)"
    using e1 by simp
  have s2: "readUint16 ?r1 = Inr (h, r\<lparr>rpos := rpos r + 4\<rparr>)"
    using readUint16_at [OF d1] by (simp add: numeral_eq_Suc)
  let ?r2 = "r\<lparr>rpos := rpos r + 4\<rparr>"
  have e2: "drop (rpos r + 4) (rdata r) = [s0, s1, s2] @ (payload @ rest)"
    by (rule drop_to [OF e1]) (simp_all add: length_PutUint16)
  have d2: "drop (rpos ?r2) (rdata ?r2) = [s0, s1, s2] @ (payload @ rest)"
    using e2 by simp
  have s3: "ReadFull ?r2 3 = Inr ([s0, s1, s2], r\<lparr>rpos := rpos r + 7\<rparr>)"
    using ReadFull_at [OF d2, of 3] by simp
  let ?r3 = "r\<lparr>rpos := rpos r + 7\<rparr>"
  have e3: "drop (rpos r + 7) (rdata r) = payload @ rest"
    by (rule drop_to [OF e2]) simp_all
  have d3: "drop (rpos ?r3) (rdata ?r3) = payload @ rest"
    using e3 by simp
  have s4: "ReadFull ?r3 (length payload) =
              Inr (payload, r\<lparr>rpos := rpos r + (7 + length payload)\<rparr>)"
  proof (cases "payload = []")
    case True
    then show ?thesis by (simp add: ReadFull_def)
  next
    case False
    then have "0 < length payload" by simp
    from ReadFull_at [OF d3 refl this] show ?thesis by (simp add: add.assoc)
  qed
  show ?thesis
    unfolding readMipMap_def s1 sum.case prod.case s2 Let_def s3 len [symmetric] s4
    by (auto simp: mipWidth_def split: sum.splits)
qed

lemma expectedMipSize_DXT_nonneg:
  "isDXT paxType \<Longrightarrow> 0 \<le> a \<Longrightarrow> 0 \<le> b \<Longrightarrow> \<not> expectedMipSize paxType a b < 0"
  by (cases paxType) (auto simp: expectedMipSize_def not_less)


text \<open>
  Claim C7, as amended.  For a DXT format and a block whose payload is as long as
  its three-byte length field says: the block \<open>(0, 0)\<close> is the dummy terminator
  and yields no mip and no error, before the length is looked at; for every other
  width and height, a stored length equal to the expected raw size makes the
  payload the raw data, and a different stored length with the top bit of the
  width field clear fails with \<open>ErrInsufficientData\<close> (with the bit set the payload
  goes to the LZO decompressor).
\<close>

theorem readMipMap_DXT_block:
  assumes dxt: "isDXT paxType"
    and d: "drop (rpos r) (rdata r) = PutUint16 w @ PutUint16 h @ [s0, s1, s2] @ payload @ rest"
    and len: "length payload = storedSizeOf [s0, s1, s2]"
  shows "readMipMap lzoD lzssD r paxType =
     (if w = 0 \<and> h = 0 then Inr (None, r\<lparr>rpos := rpos r + 4\<rparr>)
      else if int (length payload) = expectedMipSize paxType (uint (mipWidth paxType w)) (uint h)
        then Inr (Some \<lparr>Data = payload, Type = paxType, Width = mipWidth paxType w, Height = h\<rparr>,
                  r\<lparr>rpos := rpos r + (7 + length payload)\<rparr>)
      else if (w AND 0x8000) = 0 then Inl ErrInsufficientData
      else (case lzoD payload (nat (expectedMipSize paxType (uint (mipWidth paxType w)) (uint h))) of
              Inl e \<Rightarrow> Inl (Join ErrLZODecompress e)
            | Inr dec \<Rightarrow>
                Inr (Some \<lparr>Data = dec, Type = paxType, Width = mipWidth paxType w, Height = h\<rparr>,
                     r\<lparr>rpos := rpos r + (7 + length payload)\<rparr>)))"
  using expectedMipSize_DXT_nonneg [OF dxt, of "uint (mipWidth paxType w)" "uint h"] dxt
  by (simp add: readMipMap_block [OF d len])


theorem readMipMap_DXT_block_witness:
  "readMipMap noDecompress noDecompress
     \<lparr>rdata = PutUint16 4 @ PutUint16 4 @ [8, 0, 0] @ [1, 2, 3, 4, 5, 6, 7, 8] @ [], rpos = 0\<rparr>
     PaxDXT1 =
     Inr (Some \<lparr>Data = [1, 2, 3, 4, 5, 6, 7, 8], Type = PaxDXT1, Width = 4, Height = 4\<rparr>,
          \<lparr>rdata = PutUint16 4 @ PutUint16 4 @ [8, 0, 0] @ [1, 2, 3, 4, 5, 6, 7, 8] @ [], rpos = 15\<rparr>)
   \<and>
   readMipMap noDecompress noDecompress
     \<lparr>rdata = PutUint16 4 @ PutUint16 4 @ [3, 0, 0] @ [1, 2, 3] @ [], rpos = 0\<rparr>
     PaxDXT1 = Inl ErrInsufficientData"
proof
  have "isDXT PaxDXT1" by simp
  from readMipMap_DXT_block [OF this, of "\<lparr>rdata = PutUint16 4 @ PutUint16 4 @ [8, 0, 0] @ [1, 2, 3, 4, 5, 6, 7, 8] @ [], rpos = 0\<rparr>"
       4 4 8 0 0 "[1, 2, 3, 4, 5, 6, 7, 8]" "[]" noDecompress noDecompress]
  show "readMipMap noDecompress noDecompress
     \<lparr>rdata = PutUint16 4 @ PutUint16 4 @ [8, 0, 0] @ [1, 2, 3, 4, 5, 6, 7, 8] @ [], rpos = 0\<rparr>
     PaxDXT1 =
     Inr (Some \<lparr>Data = [1, 2, 3, 4, 5, 6, 7, 8], Type = PaxDXT1, Width = 4, Height = 4\<rparr>,
          \<lparr>rdata = PutUint16 4 @ PutUint16 4 @ [8, 0, 0] @ [1, 2, 3, 4, 5, 6, 7, 8] @ [], rpos = 15\<rparr>)"
    by (simp add: storedSizeOf_def expectedMipSize_def mipWidth_def)
next
  have "isDXT PaxDXT1" by simp
  from readMipMap_DXT_block [OF this, of "\<lparr>rdata = PutUint16 4 @ PutUint16 4 @ [3, 0, 0] @ [1, 2, 3] @ [], rpos = 0\<rparr>"
       4 4 3 0 0 "[1, 2, 3]" "[]" noDecompress noDecompress]
  show "readMipMap noDecompress noDecompress
     \<lparr>rdata = PutUint16 4 @ PutUint16 4 @ [3, 0, 0] @ [1, 2, 3] @ [], rpos = 0\<rparr>
     PaxDXT1 = Inl ErrInsufficientData"
    by (simp add: storedSizeOf_def expectedMipSize_def mipWidth_def)
qed


text \<open>
  The claim as stated, for every width and height, fails at the dummy block: the
  stored length 1 differs from the expected raw size 0 of a \<open>0 \<times> 0\<close> DXT1 level and
  the top bit of the width is clear, yet the reader returns no error.
\<close>

theorem readMipMap_dummy_counterexample:
  "isDXT PaxDXT1 \<and>
   int (storedSizeOf [1, 0, 0]) \<noteq> expectedMipSize PaxDXT1 (uint (u16le 0 0)) (uint (u16le 0 0)) \<and>
   (u16le 0 0 AND 0x8000) = 0 \<and>
   readMipMap noDecompress noDecompress \<lparr>rdata = [0, 0, 0, 0, 1, 0, 0, 0x55], rpos = 0\<rparr> PaxDXT1 =
     Inr (None, \<lparr>rdata = [0, 0, 0, 0, 1, 0, 0, 0x55], rpos = 4\<rparr>) \<and>
   readMipMap noDecompress noDecompress \<lparr>rdata = [0, 0, 0, 0, 1, 0, 0, 0x55], rpos = 0\<rparr> PaxDXT1 \<noteq>
     Inl ErrInsufficientData"
  by (simp add: readMipMap_def readUint16_def ReadFull_def u16le_def storedSizeOf_def
        expectedMipSize_def)

subsection \<open>ARGB4444 round trip\<close>

lemma m0F: "(0x0F :: 16 word) = mask 4" by (simp add: mask_eq_exp_minus_1)
lemma mF0: "(0xF0 :: byte) = push_bit 4 (mask 4)" by (simp add: mask_eq_exp_minus_1)

lemma dec_pack_R: "(ucast (push_bit 4 (packARGB4 c AND 0x0F)) :: byte) = cR c AND 0xF0"
  unfolding packARGB4_def Let_def m0F mF0
  apply (rule bit_word_eqI)
  subgoal for n
    by (cases "n < 4") (auto simp add: bit_simps dest: bit_imp_le_length)
  done

lemma dec_pack_G: "(ucast (push_bit 4 (drop_bit 4 (packARGB4 c) AND 0x0F)) :: byte) = cG c AND 0xF0"
  unfolding packARGB4_def Let_def m0F mF0
  apply (rule bit_word_eqI)
  subgoal for n
    by (cases "n < 4") (auto simp add: bit_simps dest: bit_imp_le_length)
  done

lemma dec_pack_B: "(ucast (push_bit 4 (drop_bit 8 (packARGB4 c) AND 0x0F)) :: byte) = cB c AND 0xF0"
  unfolding packARGB4_def Let_def m0F mF0
  apply (rule bit_word_eqI)
  subgoal for n
    by (cases "n < 4") (auto simp add: bit_simps dest: bit_imp_le_length)
  done

lemma dec_pack_A: "(ucast (push_bit 4 (drop_bit 12 (packARGB4 c) AND 0x0F)) :: byte) = cA c AND 0xF0"
  unfolding packARGB4_def Let_def m0F mF0
  apply (rule bit_word_eqI)
  subgoal for n
    by (cases "n < 4") (auto simp add: bit_simps dest: bit_imp_le_length)
  done

lemma decARGB4pix_pack: "decARGB4pix (packARGB4 c) = pixBytes (quantize4 c)"
  by (simp only: decARGB4pix_def pixBytes_def quantize4_def dec_pack_R dec_pack_G dec_pack_B
        dec_pack_A NRGBA.select_convs)

lemma decARGB4_enc: "decARGB4 (concat (map encARGB4 cs)) = concat (map (\<lambda>c. pixBytes (quantize4 c)) cs)"
proof (induction cs)
  case Nil
  then show ?case by simp
next
  case (Cons c cs)
  obtain a b where ab: "PutUint16 (packARGB4 c) = [a, b]"
    by (simp add: PutUint16_def)
  show ?case
    using Cons.IH by (simp add: encARGB4_def ab u16le_PutUint16 [OF ab] decARGB4pix_pack)
qed

lemma length_rows: "length (concat (map (\<lambda>y. map (f y) [0..<w]) [0..<h])) = h * w"
  by (induction h) simp_all

lemma rows_nth:
  "x < w \<Longrightarrow> y < h \<Longrightarrow> concat (map (\<lambda>y. map (f y) [0..<w]) [0..<h]) ! (y * w + x) = f y x"
proof (induction h)
  case 0
  then show ?case by simp
next
  case (Suc h)
  show ?case
  proof (cases "y < h")
    case True
    then have "y * w + x < h * w"
    proof -
      from True have "Suc y \<le> h" by simp
      then have "Suc y * w \<le> h * w" by (rule mult_le_mono1)
      with Suc.prems(1) show ?thesis by simp
    qed
    with Suc True show ?thesis
      by (simp add: nth_append length_rows)
  next
    case False
    with Suc.prems have "y = h" by simp
    with Suc.prems show ?thesis
      by (simp add: nth_append length_rows)
  qed
qed

lemma length_scan: "length (scan img) = Dy img * Dx img"
  by (simp add: scan_def length_rows)

lemma scan_nth: "x < Dx img \<Longrightarrow> y < Dy img \<Longrightarrow> scan img ! (y * Dx img + x) = At img x y"
  unfolding scan_def by (rule rows_nth)

lemma concat_map_nth:
  assumes "\<And>c. length (g c) = m" and "i < length cs" and "k < m"
  shows "concat (map g cs) ! (i * m + k) = g (cs ! i) ! k"
  using assms(2)
proof (induction cs arbitrary: i)
  case Nil
  then show ?case by simp
next
  case (Cons c cs)
  show ?case
  proof (cases i)
    case 0
    then show ?thesis using assms(1,3) by (simp add: nth_append)
  next
    case (Suc j)
    with Cons.prems have j: "j < length cs" by simp
    have "concat (map g (c # cs)) ! (i * m + k) = concat (map g cs) ! (j * m + k)"
      using Suc assms(1) by (simp add: nth_append)
    with Cons.IH [OF j] Suc show ?thesis by simp
  qed
qed

lemma length_concat_const:
  assumes "\<And>c. length (g c) = m"
  shows "length (concat (map g cs)) = length cs * m"
  by (induction cs) (simp_all add: assms)

lemma storePix_full: "length new = length pix \<Longrightarrow> storePix new pix = Inr new"
  by (simp add: storePix_def)

lemma NRGBAAt_pixels:
  assumes "length cs = h * w" and "x < w" and "y < h"
  shows "NRGBAAt w h (concat (map pixBytes cs)) x y = cs ! (y * w + x)"
proof -
  have lt: "y * w + x < length cs"
  proof -
    from assms(3) have "Suc y \<le> h" by simp
    then have "Suc y * w \<le> h * w" by (rule mult_le_mono1)
    with assms(1,2) show ?thesis by simp
  qed
  have len: "\<And>c. length (pixBytes c) = 4" by (simp add: pixBytes_def)
  have off: "y * (4 * w) + x * 4 = (y * w + x) * 4" by (simp add: algebra_simps)
  have n: "\<And>k. k < 4 \<Longrightarrow> concat (map pixBytes cs) ! ((y * w + x) * 4 + k) = pixBytes (cs ! (y * w + x)) ! k"
    by (rule concat_map_nth [OF len lt])
  have n0: "concat (map pixBytes cs) ! ((y * w + x) * 4) = pixBytes (cs ! (y * w + x)) ! 0"
    using n [of 0] by simp
  show ?thesis
    using assms(2,3) n0 n [of 1] n [of 2] n [of 3]
    by (simp add: NRGBAAt_def Let_def off pixBytes_def)
qed


text \<open>
  Claim C8.  For an image of positive width and height, \<open>encodePixelFormat\<close> for
  ARGB4444 succeeds and writes for every pixel, in scan order, the 16-bit value
  \<open>(A>>4)<<12 | (B>>4)<<8 | (G>>4)<<4 | (R>>4)\<close> in little-endian order; decoding
  these bytes into a fresh NRGBA buffer of the same size succeeds, and every pixel
  of the result has each of its four channels equal to the input channel with the
  low four bits cleared.
\<close>

theorem ARGB4444_roundtrip:
  assumes "0 < Dx img" and "0 < Dy img"
  shows "\<exists>raw pix.
           encodePixelFormat lum PaxARGB4 img = Inr raw \<and>
           raw = concat (map (\<lambda>c. PutUint16 (packARGB4 c)) (scan img)) \<and>
           decodePixelFormat PaxARGB4 raw (Dx img) (Dy img) (NewNRGBA (Dx img) (Dy img)) = Inr pix \<and>
           (\<forall>x < Dx img. \<forall>y < Dy img.
              NRGBAAt (Dx img) (Dy img) pix x y = quantize4 (At img x y))"
proof -
  let ?raw = "concat (map encARGB4 (scan img))"
  let ?pix = "concat (map pixBytes (map quantize4 (scan img)))"
  have enc: "encodePixelFormat lum PaxARGB4 img = Inr ?raw"
    using assms by (simp add: encodePixelFormat_def)
  have raw: "?raw = concat (map (\<lambda>c. PutUint16 (packARGB4 c)) (scan img))"
    by (simp add: encARGB4_def [abs_def])
  have dec: "decARGB4 ?raw = ?pix"
    by (simp add: decARGB4_enc comp_def)
  have len: "length ?pix = length (NewNRGBA (Dx img) (Dy img))"
    by (simp add: length_concat_const [where m = 4] pixBytes_def length_scan NewNRGBA_def comp_def)
  have d: "decodePixelFormat PaxARGB4 ?raw (Dx img) (Dy img) (NewNRGBA (Dx img) (Dy img)) = Inr ?pix"
    using storePix_full [OF len] by (simp add: decodePixelFormat_def dec)
  have at: "NRGBAAt (Dx img) (Dy img) ?pix x y = quantize4 (At img x y)"
    if "x < Dx img" "y < Dy img" for x y
  proof -
    have l: "length (map quantize4 (scan img)) = Dy img * Dx img"
      by (simp add: length_scan)
    have lt: "y * Dx img + x < length (scan img)"
    proof -
      from that(2) have "Suc y \<le> Dy img" by simp
      then have "Suc y * Dx img \<le> Dy img * Dx img" by (rule mult_le_mono1)
      with that(1) show ?thesis by (simp add: length_scan)
    qed
    from NRGBAAt_pixels [OF l that] lt show ?thesis
      by (simp add: scan_nth [OF that])
  qed
  from enc raw d at show ?thesis by (metis raw)
qed

theorem ARGB4444_roundtrip_witness:
  "\<exists>raw pix.
     encodePixelFormat cG PaxARGB4 twoPixels = Inr raw \<and>
     decodePixelFormat PaxARGB4 raw 2 1 (NewNRGBA 2 1) = Inr pix \<and>
     NRGBAAt 2 1 pix 0 0 = \<lparr>cR = 0x10, cG = 0x30, cB = 0x50, cA = 0x70\<rparr> \<and>
     NRGBAAt 2 1 pix 1 0 = \<lparr>cR = 0xF0, cG = 0x00, cB = 0xA0, cA = 0x80\<rparr>"
proof -
  have h1: "0 < Dx twoPixels" and h2: "0 < Dy twoPixels"
    by (simp_all add: twoPixels_def)
  from ARGB4444_roundtrip [OF h1 h2, of cG] obtain raw pix where
    e: "encodePixelFormat cG PaxARGB4 twoPixels = Inr raw" and
    d: "decodePixelFormat PaxARGB4 raw (Dx twoPixels) (Dy twoPixels)
          (NewNRGBA (Dx twoPixels) (Dy twoPixels)) = Inr pix" and
    a: "\<forall>x < Dx twoPixels. \<forall>y < Dy twoPixels.
          NRGBAAt (Dx twoPixels) (Dy twoPixels) pix x y = quantize4 (At twoPixels x y)"
    by blast
  from a have "NRGBAAt 2 1 pix 0 0 = \<lparr>cR = 0x10, cG = 0x30, cB = 0x50, cA = 0x70\<rparr>"
    and "NRGBAAt 2 1 pix 1 0 = \<lparr>cR = 0xF0, cG = 0x00, cB = 0xA0, cA = 0x80\<rparr>"
    by (simp_all add: twoPixels_def quantize4_def)
  with e d show ?thesis
    by (auto simp: twoPixels_def)
qed

subsection \<open>The process-wide default config\<close>

text \<open>
  Claim C6 (what the code does).  Setting the default to \<open>c\<close> and reading it back
  returns the hints and the version of \<open>c\<close>, and \<open>False\<close> for each of the four
  toggles \<open>ApplyDefaultErrorMetrics\<close>, \<open>UseSRGBFromDynRange\<close>, \<open>DisableAutoReduce\<close>
  and \<open>DisableLZO\<close>, whatever they are in \<open>c\<close>: \<open>Clone\<close> copies two fields only.
\<close>

theorem set_then_get_default_drops_toggles:
  "fst (DefaultTexConvertConfig builtin (SetDefaultTexConvertConfig builtin c st)) =
     \<lparr>Hints = Hints c, ConvertVersion = ConvertVersion c,
      ApplyDefaultErrorMetrics = False, UseSRGBFromDynRange = False,
      DisableAutoReduce = False, DisableLZO = False\<rparr>"
  by (simp add: DefaultTexConvertConfig_def SetDefaultTexConvertConfig_def onceInit_def Clone_def
        Let_def)


theorem set_then_get_default_example:
  "fst (DefaultTexConvertConfig customConfig (SetDefaultTexConvertConfig customConfig customConfig freshDefault))
     \<noteq> customConfig \<and>
   DisableLZO (fst (DefaultTexConvertConfig customConfig
                      (SetDefaultTexConvertConfig customConfig customConfig freshDefault))) = False \<and>
   DisableLZO customConfig = True"
  using set_then_get_default_drops_toggles [of customConfig customConfig freshDefault]
  by (simp add: customConfig_def)


subsection \<open>The generic swizzle on decode\<close>

lemma mapPixels_At: "x < Dx img \<Longrightarrow> y < Dy img \<Longrightarrow> At (mapPixels f img) x y = f (At img x y)"
  by (simp add: mapPixels_def)


text \<open>
  Claim C5 (what the code does).  For a DXT5 file whose four-byte ZIWS tag is
  neither the nohq tag nor the ADSHQ tag, every pixel of the decoded image is the
  generic swizzle of the source pixel, and in that rule the selector \<open>0x09\<close>
  yields \<open>0xFF\<close>, as \<open>0x08\<close> does: bit 3 forces \<open>0xFF\<close> whatever bit 0 says.
\<close>

theorem generic_swizzle_selector_09_is_FF:
  assumes "PType p = PaxDXT5" and "Taggs p (bytes_of ''ZIWS'') = Some tag" and "length tag = 4"
    and "tag \<noteq> swizzleDXT5NM" and "tag \<noteq> [0x02, 0x09, 0x03, 0x09]"
    and "x < Dx img" and "y < Dy img"
  shows "At (applySwizzleTag unswz p img) x y = swizzlePixel tag (At img x y) \<and>
         swizzleValue (At img x y) 0x09 = 0xFF \<and>
         swizzleValue (At img x y) 0x08 = 0xFF"
  using assms
  by (simp add: applySwizzleTag_def applySwizzlePayload_def mapPixels_At swizzleValue_def)


theorem generic_swizzle_selector_09_is_FF_witness:
  "At (applySwizzleTag id zeroRedFile twoPixels) 0 0 =
     \<lparr>cR = 0xFF, cG = 0x34, cB = 0x56, cA = 0x78\<rparr> \<and>
   cR (At twoPixels 0 0) = 0x12"
proof -
  have "At (applySwizzleTag id zeroRedFile twoPixels) 0 0 =
          swizzlePixel [0x00, 0x09, 0x02, 0x03] (At twoPixels 0 0)"
    using generic_swizzle_selector_09_is_FF [of zeroRedFile "[0x00, 0x09, 0x02, 0x03]" 0 twoPixels 0 id]
    by (simp add: zeroRedFile_def swizzleDXT5NM_def twoPixels_def)
  then show ?thesis
    by (simp add: swizzlePixel_def swizzleValue_def getChannel_def twoPixels_def)
qed


subsection \<open>Format selection for the hint format Default\<close>

lemma scanAlphaStep_sel:
  "hasAlpha (scanAlphaStep c st) = (hasAlpha st \<or> cA c < 255)"
  "allHigh (scanAlphaStep c st) = (allHigh st \<and> 0xF0 \<le> cA c)"
  "isBinary (scanAlphaStep c st) = (isBinary st \<and> (cA c = 0 \<or> cA c = 255))"
  by (auto simp: scanAlphaStep_def Let_def not_less)

lemma fold_scanAlphaStep:
  "hasAlpha (fold scanAlphaStep cs st) = (hasAlpha st \<or> (\<exists>c \<in> set cs. cA c < 255)) \<and>
   allHigh (fold scanAlphaStep cs st) = (allHigh st \<and> (\<forall>c \<in> set cs. 0xF0 \<le> cA c)) \<and>
   isBinary (fold scanAlphaStep cs st) = (isBinary st \<and> (\<forall>c \<in> set cs. cA c = 0 \<or> cA c = 255))"
proof (induction cs arbitrary: st)
  case Nil
  then show ?case by simp
next
  case (Cons c cs)
  have "fold scanAlphaStep (c # cs) st = fold scanAlphaStep cs (scanAlphaStep c st)"
    by simp
  with Cons.IH [of "scanAlphaStep c st"] show ?case
    by (simp only: scanAlphaStep_sel) auto
qed

lemma byte_max: "\<not> (a :: byte) < 255 \<Longrightarrow> a = 255"
proof -
  assume "\<not> a < 255"
  moreover have "a \<le> 255"
  proof -
    have e: "(255 :: byte) = - 1" by simp
    show ?thesis unfolding e by (rule word_n1_ge)
  qed
  ultimately show ?thesis by simp
qed


text \<open>
  Claim C4, as amended.  For a hint whose format is \<open>Default\<close>, format selection
  returns DXT1 if and only if every alpha of the image is at least \<open>0xF0\<close> or every
  alpha is 0 or 255, and DXT5 otherwise.
\<close>

theorem default_format_by_alpha:
  assumes "Format hint = TexFormatDefault"
  shows "selectPaxType (scanAlpha img) hint =
           Inr (if (\<forall>c \<in> set (scan img). 0xF0 \<le> cA c) \<or>
                   (\<forall>c \<in> set (scan img). cA c = 0 \<or> cA c = 255)
                then PaxDXT1 else PaxDXT5)"
proof -
  have all255: "(\<forall>c \<in> set (scan img). 0xF0 \<le> cA c)" if "\<not> (\<exists>c \<in> set (scan img). cA c < 255)"
  proof
    fix c assume "c \<in> set (scan img)"
    with that have "cA c = 255" using byte_max by blast
    then show "0xF0 \<le> cA c" by simp
  qed
  show ?thesis
    using assms all255
    by (auto simp: scanAlpha_def fold_scanAlphaStep Let_def)
qed


theorem default_format_by_alpha_witness:
  "selectPaxType (scanAlpha twoPixels) defaultFormatHint = Inr PaxDXT5"
  using default_format_by_alpha [of defaultFormatHint twoPixels]
  by (simp add: defaultFormatHint_def twoPixels_def scan_def)


text \<open>
  The claim as stated fails for an image whose only alpha is \<open>0xF0\<close>: it is neither
  all-opaque nor binary, and the selected format is DXT1.
\<close>

theorem default_format_allHigh_counterexample:
  "Format defaultFormatHint = TexFormatDefault \<and>
   scan opaqueF0 = [\<lparr>cR = 10, cG = 20, cB = 30, cA = 0xF0\<rparr>] \<and>
   (0xF0 :: byte) \<noteq> 255 \<and> (0xF0 :: byte) \<noteq> 0 \<and>
   selectPaxType (scanAlpha opaqueF0) defaultFormatHint = Inr PaxDXT1"
  by (simp add: defaultFormatHint_def opaqueF0_def scan_def scanAlpha_def scanAlphaStep_def)

subsection \<open>The layout of an encoded file\<close>

lemma length_sffoTable: "length (sffoTable k off mips) = k"
  by (induction k off mips rule: sffoTable.induct) simp_all

lemma sffoTable_filled:
  "i < k \<Longrightarrow> i < length mips \<Longrightarrow>
   sffoTable k off mips ! i = of_int (off + sum_list (map levelSize (take i mips)))"
proof (induction k off mips arbitrary: i rule: sffoTable.induct)
  case (1 off mips)
  then show ?case by simp
next
  case (2 k off)
  then show ?case by simp
next
  case (3 k off m ms)
  show ?case
  proof (cases i)
    case 0
    then show ?thesis by simp
  next
    case (Suc j)
    with 3 show ?thesis by (simp add: levelSize_def add.assoc)
  qed
qed

lemma sffoTable_empty: "i < k \<Longrightarrow> sffoTable k off [] ! i = 0"
  by (induction k arbitrary: i) (auto simp: nth_Cons split: nat.splits)

lemma sffoTable_unused:
  "i < k \<Longrightarrow> length mips \<le> i \<Longrightarrow> sffoTable k off mips ! i = 0"
proof (induction k off mips arbitrary: i rule: sffoTable.induct)
  case (1 off mips)
  then show ?case by simp
next
  case (2 k off)
  then show ?case using sffoTable_empty [of i "Suc k" off] by simp
next
  case (3 k off m ms)
  then show ?case by (cases i) simp_all
qed

lemma sffoEntries_PutUint32: "sffoEntries (concat (map PutUint32 es)) = es"
proof (induction es)
  case Nil
  then show ?case by simp
next
  case (Cons e es)
  obtain a b c d where abcd: "PutUint32 e = [a, b, c, d]"
    by (simp add: PutUint32_def)
  show ?case using Cons.IH by (simp add: abcd u32le_PutUint32 [OF abcd])
qed

lemma length_concat_PutUint32: "length (concat (map PutUint32 es)) = 4 * length es"
  by (induction es) (simp_all add: length_PutUint32)

lemma writePAA_layout:
  assumes "writePAA t cgva cxam wG gv wZ zt mips = Inr out"
  shows "\<exists>blocks. writeMips mips = Inr blocks \<and>
           out = PaxType_Bytes t @ tagSection (encTags cgva cxam wG gv wZ zt mips) @
                 ([0, 0] @ blocks @ [0, 0, 0, 0, 0, 0])"
  using assms
  by (auto simp: writePAA_def encTags_def tagSection_def writeTag_def Let_def split: sum.splits)

lemma length_PaxType_Bytes: "length (PaxType_Bytes t) = 2"
  by (cases t) simp_all

lemma length_header:
  assumes "length cgva = 4" and "length cxam = 4" and "length zt = 4"
  shows "int (length (PaxType_Bytes t @ tagSection (encTags cgva cxam wG gv wZ zt mips) @ [0, 0]))
           = baseOffset wG wZ"
  using assms
  by (simp add: encTags_def tagSection_def length_tagBytes bytes_of_def length_PaxType_Bytes
        length_concat_PutUint32 length_sffoTable baseOffset_def Let_def tagBytes_def length_PutUint32)

lemma wf_encTags:
  assumes "length cgva = 4" and "length cxam = 4" and "length zt = 4"
  shows "list_all wfTag (encTags cgva cxam wG gv wZ zt mips)"
  using assms
  by (simp add: encTags_def wfTag_def bytes_of_def length_concat_PutUint32 length_sffoTable)

lemma storeTags_encTags:
  "storeTags (encTags cgva cxam wG gv wZ zt mips) Map.empty (bytes_of ''SFFO'') =
     Some (concat (map PutUint32 (sffoTable 16 (baseOffset wG wZ) mips)))"
  "storeTags (encTags cgva cxam wG gv wZ zt mips) Map.empty (bytes_of ''GALF'') =
     (if wG then Some [gv, 0, 0, 0] else None)"
  "storeTags (encTags cgva cxam wG gv wZ zt mips) Map.empty (bytes_of ''ZIWS'') =
     (if wZ then Some zt else None)"
  by (simp_all add: encTags_def storeTags_def bytes_of_def)

lemma PaxTypeFromBytes_Bytes: "t \<noteq> PaxAuto \<Longrightarrow> PaxTypeFromBytes (PaxType_Bytes t) = Some t"
  by (cases t) (simp_all add: PaxTypeFromBytes_def u16le_def)

lemma readGGATTags_tail:
  assumes "length magic = 2" and "list_all wfTag tgs" and "4 \<le> length tail"
    and "tail ! 0 = 0"
  shows "readGGATTags \<lparr>rdata = magic @ tagSection tgs @ tail, rpos = 2\<rparr> =
           Inr (storeTags tgs Map.empty,
                \<lparr>rdata = magic @ tagSection tgs @ tail,
                 rpos = 2 + length (tagSection tgs) + 4\<rparr>)"
proof -
  have split: "tail = take 4 tail @ drop 4 tail" by simp
  have l4: "length (take 4 tail) = 4" using assms(3) by simp
  have ne: "take 4 tail \<noteq> bytes_of ''GGAT''"
  proof
    assume e: "take 4 tail = bytes_of ''GGAT''"
    have "take 4 tail ! 0 = tail ! 0" using assms(3) by simp
    with e assms(4) show False by (simp add: bytes_of_def)
  qed
  from readGGATTags_stream [OF assms(1,2) l4 ne, of "drop 4 tail"] show ?thesis
    by simp
qed

lemma fileTags_writePAA:
  assumes w: "writePAA t cgva cxam wG gv wZ zt mips = Inr out"
    and t: "t \<noteq> PaxAuto"
    and len: "length cgva = 4" "length cxam = 4" "length zt = 4"
  shows "fileTags out = Inr (storeTags (encTags cgva cxam wG gv wZ zt mips) Map.empty)"
proof -
  from writePAA_layout [OF w] obtain blocks where
    out: "out = PaxType_Bytes t @ tagSection (encTags cgva cxam wG gv wZ zt mips) @
                ([0, 0] @ blocks @ [0, 0, 0, 0, 0, 0])"
    by blast
  let ?tgs = "encTags cgva cxam wG gv wZ zt mips"
  let ?tail = "[0, 0] @ blocks @ [0, 0, 0, 0, 0, 0]"
  have rp: "readPaxType \<lparr>rdata = out, rpos = 0\<rparr> = Inr (t, \<lparr>rdata = out, rpos = 2\<rparr>)"
    unfolding out
    by (rule readPaxType_magic [OF length_PaxType_Bytes PaxTypeFromBytes_Bytes [OF t]])
  have rt: "readGGATTags \<lparr>rdata = out, rpos = 2\<rparr> =
              Inr (storeTags ?tgs Map.empty, \<lparr>rdata = out, rpos = 2 + length (tagSection ?tgs) + 4\<rparr>)"
    unfolding out
    by (rule readGGATTags_tail [OF length_PaxType_Bytes wf_encTags [OF len]]) simp_all
  show ?thesis
    by (simp add: fileTags_def rp rt)
qed

lemma DecodePAA_fileTags:
  "DecodePAA lzoD lzssD stream = Inr p \<Longrightarrow> fileTags stream = Inr (Taggs p)"
  by (auto simp: DecodePAA_def fileTags_def split: sum.splits prod.splits)

lemma DecodeMetadata_fileTags:
  "DecodeMetadata stream = Inr md \<Longrightarrow> fileTags stream = Inr (MTaggs md)"
  by (auto simp: DecodeMetadata_def fileTags_def split: sum.splits prod.splits)

lemma encPaxType_not_auto: "encPaxType img opts \<noteq> PaxAuto"
  by (auto simp: encPaxType_def Let_def split: option.splits)

lemma length_encCGVA: "length (encCGVA img) = 4"
  by (simp add: encCGVA_def)

lemma length_encCXAM: "length (encCXAM img opts t) = 4"
  by (simp add: encCXAM_def Let_def)

lemma length_bytes4: "length (bytes4 b) = 4"
  by (cases b) simp

lemma EncodeWithOptions_writePAA:
  assumes "EncodeWithOptions ext img opts = Inr out"
  shows "\<exists>mips.
           encodeMips ext opts (encPaxType img opts)
             (encMipImages ext img opts (encPaxType img opts)) [] = Inr mips \<and>
           writePAA (encPaxType img opts) (encCGVA img) (encCXAM img opts (encPaxType img opts))
             (encWriteGALF opts (encPaxType img opts)) (encGalfValue opts)
             (encWriteZIWS opts) (bytes4 (encZiwsTag opts)) mips = Inr out"
  using assms by (auto simp: EncodeWithOptions_def Let_def split: sum.splits)

lemma writeMip_length: "writeMip m = Inr bs \<Longrightarrow> int (length bs) = levelSize m"
  by (auto simp: writeMip_def levelSize_def Let_def length_PutUint16 split: if_splits)

lemma writeMips_length:
  "writeMips mips = Inr blocks \<Longrightarrow> int (length blocks) = sum_list (map levelSize mips)"
proof (induction mips arbitrary: blocks)
  case Nil
  then show ?case by simp
next
  case (Cons m ms)
  then show ?case
    by (auto simp: writeMip_length split: sum.splits)
qed

lemma word32_nonzero: "0 < x \<Longrightarrow> x < 2 ^ 32 \<Longrightarrow> (of_int x :: 32 word) \<noteq> 0"
  by (simp add: word_of_int_eq_0_iff zdvd_not_zless)

lemma levelSize_pos: "0 < levelSize m"
  by (simp add: levelSize_def)

lemma sum_levelSize_nonneg: "0 \<le> sum_list (map levelSize ms)"
  by (induction ms) (simp_all add: levelSize_def)

lemma sum_take_le: "sum_list (map levelSize (take i ms)) \<le> sum_list (map levelSize (take j ms))"
  if "i \<le> j"
proof -
  from that obtain d where j: "j = i + d" using le_Suc_ex by blast
  have "take (i + d) ms = take i ms @ take d (drop i ms)"
    by (simp add: take_add)
  then show ?thesis
    using sum_levelSize_nonneg [of "take d (drop i ms)"] by (simp add: j)
qed

lemma sffoTable_nth_nonzero:
  assumes "i < k" and "i < length mips" and "0 < off"
    and "off + sum_list (map levelSize (take k mips)) < 2 ^ 32"
  shows "sffoTable k off mips ! i \<noteq> 0"
proof -
  have "sum_list (map levelSize (take i mips)) \<le> sum_list (map levelSize (take k mips))"
    using assms(1) by (intro sum_take_le) simp
  then have "off + sum_list (map levelSize (take i mips)) < 2 ^ 32"
    using assms(4) by simp
  moreover have "0 < off + sum_list (map levelSize (take i mips))"
    using assms(3) sum_levelSize_nonneg [of "take i mips"] by simp
  ultimately show ?thesis
    unfolding sffoTable_filled [OF assms(1,2)] by (intro word32_nonzero)
qed

lemma filter_nonzero_sffoTable:
  assumes "0 < off" and "off + sum_list (map levelSize (take k mips)) < 2 ^ 32"
  shows "filter (\<lambda>v. v \<noteq> 0) (sffoTable k off mips) = take (length mips) (sffoTable k off mips)"
proof -
  let ?e = "sffoTable k off mips"
  let ?n = "min k (length mips)"
  have split: "?e = take ?n ?e @ drop ?n ?e" by simp
  have nz: "\<forall>v \<in> set (take ?n ?e). v \<noteq> 0"
  proof
    fix v assume "v \<in> set (take ?n ?e)"
    then obtain i where i: "i < ?n" and v: "v = ?e ! i"
      by (auto simp: in_set_conv_nth length_sffoTable)
    from i sffoTable_nth_nonzero [OF _ _ assms, of i] v show "v \<noteq> 0" by simp
  qed
  have z: "\<forall>v \<in> set (drop ?n ?e). v = 0"
  proof
    fix v assume "v \<in> set (drop ?n ?e)"
    then obtain j where j: "j < length (drop ?n ?e)" and v: "v = drop ?n ?e ! j"
      by (auto simp: in_set_conv_nth)
    from j have lt: "?n + j < k" by (simp add: length_sffoTable)
    then have ge: "length mips \<le> ?n + j" by (simp add: min_def split: if_splits)
    from v lt have "v = ?e ! (?n + j)" by (simp add: length_sffoTable)
    with sffoTable_unused [OF lt ge] show "v = 0" by simp
  qed
  have "filter (\<lambda>v. v \<noteq> 0) ?e =
          filter (\<lambda>v. v \<noteq> 0) (take ?n ?e) @ filter (\<lambda>v. v \<noteq> 0) (drop ?n ?e)"
    by (subst split) (simp only: filter_append)
  also have "\<dots> = take ?n ?e"
    using nz z by (simp add: filter_id_conv filter_empty_conv)
  also have "\<dots> = take (length mips) ?e"
    by (simp add: min_def length_sffoTable)
  finally show ?thesis .
qed

lemma baseOffset_headerSize: "baseOffset galf ziws = headerSize galf ziws"
  by (simp add: baseOffset_def headerSize_def Let_def)

lemma scan_twoPixels:
  "scan twoPixels = [\<lparr>cR = 0x12, cG = 0x34, cB = 0x56, cA = 0x78\<rparr>,
                     \<lparr>cR = 0xFF, cG = 0x0F, cB = 0xA5, cA = 0x80\<rparr>]"
  by (simp add: scan_def twoPixels_def upt_rec)

lemma encodeMip_twoPixels:
  "encodeMip stubExternals (Some argb4NoMips) PaxARGB4 twoPixels =
     Inr \<lparr>mdata = [49, 117, 15, 138], mw = 2, mh = 1, museLZ = False\<rparr>"
  by (simp add: encodeMip_def argb4NoMips_def zeroEncodeOptions_def stubExternals_def
        encodePixelFormat_def scan_twoPixels encARGB4_def packARGB4_def PutUint16_def Let_def)
     (simp add: twoPixels_def)

lemma sffoTable_numeral:
  "sffoTable (numeral n) off mips =
     (case mips of
        [] \<Rightarrow> 0 # sffoTable (pred_numeral n) off []
      | m # ms \<Rightarrow>
          of_int off # sffoTable (pred_numeral n) (off + (2 + 2 + 3 + int (length (mdata m)))) ms)"
  by (simp add: numeral_eq_Suc split: list.splits)

lemma sffoTable_one:
  "concat (map PutUint32 (sffoTable 16 112 [m])) =
     [112, 0, 0, 0, 0, 0, 0, 0, 0, 0, 0, 0, 0, 0, 0, 0,
      0, 0, 0, 0, 0, 0, 0, 0, 0, 0, 0, 0, 0, 0, 0, 0,
      0, 0, 0, 0, 0, 0, 0, 0, 0, 0, 0, 0, 0, 0, 0, 0,
      0, 0, 0, 0, 0, 0, 0, 0, 0, 0, 0, 0, 0, 0, 0, 0]"
  by (simp add: sffoTable_numeral PutUint32_def)

lemma encode_twoPixels:
  "EncodeWithOptions stubExternals twoPixels (Some argb4NoMips) = Inr singleMipFile"
proof -
  have t: "encPaxType twoPixels (Some argb4NoMips) = PaxARGB4"
    by (simp add: encPaxType_def argb4NoMips_def zeroEncodeOptions_def)
  have mi: "encMipImages stubExternals twoPixels (Some argb4NoMips) PaxARGB4 = [twoPixels]"
    by (simp add: encMipImages_def argb4NoMips_def zeroEncodeOptions_def)
  have em: "encodeMips stubExternals (Some argb4NoMips) PaxARGB4 [twoPixels] [] =
              Inr [\<lparr>mdata = [49, 117, 15, 138], mw = 2, mh = 1, museLZ = False\<rparr>]"
    by (simp add: encodeMip_twoPixels)
  have g: "encWriteGALF (Some argb4NoMips) PaxARGB4 = False"
    and z: "encWriteZIWS (Some argb4NoMips) = False"
    by (simp_all add: encWriteGALF_def encWriteZIWS_def argb4NoMips_def zeroEncodeOptions_def)
  have cg: "encCGVA twoPixels = [125, 33, 136, 124]"
    by (simp add: encCGVA_def avgChannel_def scan_twoPixels) (simp add: twoPixels_def)
  have cx: "encCXAM twoPixels (Some argb4NoMips) PaxARGB4 = [165, 52, 255, 128]"
    by (simp add: encCXAM_def maxChannel_def scan_twoPixels argb4NoMips_def zeroEncodeOptions_def)
  have b: "baseOffset False False = 112"
    by (simp add: baseOffset_def)
  have wm: "writeMips [\<lparr>mdata = [49, 117, 15, 138], mw = 2, mh = 1, museLZ = False\<rparr>] =
              Inr [2, 0, 1, 0, 4, 0, 0, 49, 117, 15, 138]"
    by (simp add: writeMip_def PutUint16_def drop_bit_eq_div)
  show ?thesis
    unfolding EncodeWithOptions_def Let_def t mi em sum.case writePAA_def g z b sffoTable_one wm
      cg cx
    by (simp add: writeTag_def tagBytes_def bytes_of_def PutUint32_def singleMipFile_def)
qed

lemma encode_facts:
  assumes ok: "EncodeWithOptions ext img opts = Inr out"
  shows "\<exists>mips blocks.
           encodeMips ext opts (encPaxType img opts)
             (encMipImages ext img opts (encPaxType img opts)) [] = Inr mips \<and>
           writeMips mips = Inr blocks \<and>
           out = PaxType_Bytes (encPaxType img opts) @
                 tagSection (encTags (encCGVA img) (encCXAM img opts (encPaxType img opts))
                   (encWriteGALF opts (encPaxType img opts)) (encGalfValue opts)
                   (encWriteZIWS opts) (bytes4 (encZiwsTag opts)) mips) @
                 ([0, 0] @ blocks @ [0, 0, 0, 0, 0, 0]) \<and>
           fileTags out =
             Inr (storeTags (encTags (encCGVA img) (encCXAM img opts (encPaxType img opts))
                   (encWriteGALF opts (encPaxType img opts)) (encGalfValue opts)
                   (encWriteZIWS opts) (bytes4 (encZiwsTag opts)) mips) Map.empty)"
proof -
  from EncodeWithOptions_writePAA [OF ok] obtain mips where
    em: "encodeMips ext opts (encPaxType img opts)
           (encMipImages ext img opts (encPaxType img opts)) [] = Inr mips" and
    w: "writePAA (encPaxType img opts) (encCGVA img) (encCXAM img opts (encPaxType img opts))
          (encWriteGALF opts (encPaxType img opts)) (encGalfValue opts)
          (encWriteZIWS opts) (bytes4 (encZiwsTag opts)) mips = Inr out"
    by blast
  from writePAA_layout [OF w] obtain blocks where
    wm: "writeMips mips = Inr blocks" and
    out: "out = PaxType_Bytes (encPaxType img opts) @
                 tagSection (encTags (encCGVA img) (encCXAM img opts (encPaxType img opts))
                   (encWriteGALF opts (encPaxType img opts)) (encGalfValue opts)
                   (encWriteZIWS opts) (bytes4 (encZiwsTag opts)) mips) @
                 ([0, 0] @ blocks @ [0, 0, 0, 0, 0, 0])"
    by blast
  from fileTags_writePAA [OF w encPaxType_not_auto length_encCGVA length_encCXAM length_bytes4]
    em wm out show ?thesis by blast
qed

text \<open>
  Claim C1, as amended.  For every successful encode the file is a header, the mip
  blocks and six zero bytes; the header is \<open>headerSize\<close> bytes long, that is
  2 + 16 (CGVA) + 16 (CXAM) + 16 each for GALF and ZIWS when they are written +
  12 (head of the SFFO tag) + 64 (SFFO payload) + 2 (sentinel), 112 when neither GALF
  nor ZIWS is written.  The SFFO payload holds 16 entries: entry \<open>i\<close>, for each of
  the first 16 levels, is the header size plus 7 plus the payload length for every
  level before \<open>i\<close> (as a 32-bit value), so the first is the header size and each
  next one is the previous entry plus 7 plus the previous level's payload length;
  the other entries are zero.  When these offsets fit 32 bits they are exactly the
  non-zero offsets that the reader extracts.
\<close>

theorem encode_sffo_offsets:
  assumes ok: "EncodeWithOptions ext img opts = Inr out"
  shows "\<exists>tgm mips blocks entries hdr.
           encodeMips ext opts (encPaxType img opts)
             (encMipImages ext img opts (encPaxType img opts)) [] = Inr mips \<and>
           writeMips mips = Inr blocks \<and>
           out = hdr @ blocks @ [0, 0, 0, 0, 0, 0] \<and>
           int (length hdr) =
             headerSize (encWriteGALF opts (encPaxType img opts)) (encWriteZIWS opts) \<and>
           fileTags out = Inr tgm \<and>
           (tgm (bytes_of ''GALF'') \<noteq> None) = encWriteGALF opts (encPaxType img opts) \<and>
           (tgm (bytes_of ''ZIWS'') \<noteq> None) = encWriteZIWS opts \<and>
           tgm (bytes_of ''SFFO'') = Some (concat (map PutUint32 entries)) \<and>
           length entries = 16 \<and>
           (\<forall>i. i < length mips \<and> i < 16 \<longrightarrow>
              entries ! i =
                of_int (headerSize (encWriteGALF opts (encPaxType img opts)) (encWriteZIWS opts) +
                        sum_list (map levelSize (take i mips)))) \<and>
           (\<forall>i. length mips \<le> i \<and> i < 16 \<longrightarrow> entries ! i = 0) \<and>
           (mips \<noteq> [] \<longrightarrow>
              entries ! 0 =
                of_int (headerSize (encWriteGALF opts (encPaxType img opts)) (encWriteZIWS opts))) \<and>
           (\<forall>i. Suc i < length mips \<and> Suc i < 16 \<longrightarrow>
              entries ! Suc i = entries ! i + 7 + of_nat (length (mdata (mips ! i)))) \<and>
           (mips \<noteq> [] \<and>
            headerSize (encWriteGALF opts (encPaxType img opts)) (encWriteZIWS opts) +
              sum_list (map levelSize (take 16 mips)) < 2 ^ 32 \<longrightarrow>
              sffoOffsets tgm = Inr (take (length mips) entries))"
proof -
  let ?t = "encPaxType img opts"
  let ?G = "encWriteGALF opts ?t"
  let ?Z = "encWriteZIWS opts"
  let ?h = "headerSize ?G ?Z"
  from encode_facts [OF ok] obtain mips blocks where
    em: "encodeMips ext opts ?t (encMipImages ext img opts ?t) [] = Inr mips" and
    wm: "writeMips mips = Inr blocks" and
    out: "out = PaxType_Bytes ?t @
                 tagSection (encTags (encCGVA img) (encCXAM img opts ?t) ?G (encGalfValue opts)
                   ?Z (bytes4 (encZiwsTag opts)) mips) @
                 ([0, 0] @ blocks @ [0, 0, 0, 0, 0, 0])" and
    ft: "fileTags out =
           Inr (storeTags (encTags (encCGVA img) (encCXAM img opts ?t) ?G (encGalfValue opts)
                  ?Z (bytes4 (encZiwsTag opts)) mips) Map.empty)"
    by blast
  let ?tgs = "encTags (encCGVA img) (encCXAM img opts ?t) ?G (encGalfValue opts)
                ?Z (bytes4 (encZiwsTag opts)) mips"
  let ?tgm = "storeTags ?tgs Map.empty"
  let ?hdr = "PaxType_Bytes ?t @ tagSection ?tgs @ [0, 0]"
  let ?e = "sffoTable 16 ?h mips"
  have o: "out = ?hdr @ blocks @ [0, 0, 0, 0, 0, 0]"
    using out by simp
  have lh: "int (length ?hdr) = ?h"
    using length_header [where cgva = "encCGVA img" and cxam = "encCXAM img opts ?t"
        and zt = "bytes4 (encZiwsTag opts)" and t = ?t and wG = ?G and gv = "encGalfValue opts"
        and wZ = ?Z and mips = mips, OF length_encCGVA length_encCXAM length_bytes4]
    by (simp add: baseOffset_headerSize)
  have galf: "(?tgm (bytes_of ''GALF'') \<noteq> None) = ?G"
    by (simp add: storeTags_encTags)
  have ziws: "(?tgm (bytes_of ''ZIWS'') \<noteq> None) = ?Z"
    by (simp add: storeTags_encTags)
  have sffo: "?tgm (bytes_of ''SFFO'') = Some (concat (map PutUint32 ?e))"
    by (simp add: storeTags_encTags baseOffset_headerSize)
  have le: "length ?e = 16"
    by (rule length_sffoTable)
  have filled: "?e ! i = of_int (?h + sum_list (map levelSize (take i mips)))"
    if "i < length mips \<and> i < 16" for i
    using that by (simp add: sffoTable_filled)
  have unused: "?e ! i = 0" if "length mips \<le> i \<and> i < 16" for i
    using that by (simp add: sffoTable_unused)
  have first: "?e ! 0 = of_int ?h" if "mips \<noteq> []"
    using that filled [of 0] by simp
  have succ: "?e ! Suc i = ?e ! i + 7 + of_nat (length (mdata (mips ! i)))"
    if "Suc i < length mips \<and> Suc i < 16" for i
  proof -
    from that have i: "i < length mips" by simp
    have "take (Suc i) mips = take i mips @ [mips ! i]"
      by (rule take_Suc_conv_app_nth [OF i])
    then show ?thesis
      using that filled [of i] filled [of "Suc i"]
      by (simp add: levelSize_def)
  qed
  have hpos: "0 < ?h" by (simp add: headerSize_def)
  have nz: "sffoOffsets ?tgm = Inr (take (length mips) ?e)"
    if "mips \<noteq> [] \<and> ?h + sum_list (map levelSize (take 16 mips)) < 2 ^ 32"
  proof -
    from that have "filter (\<lambda>v. v \<noteq> 0) ?e = take (length mips) ?e"
      by (intro filter_nonzero_sffoTable [OF hpos]) simp
    moreover have "take (length mips) ?e \<noteq> []"
      using that le by auto
    ultimately show ?thesis
      by (simp add: sffoOffsets_def sffo sffoEntries_PutUint32 Let_def)
  qed
  from em wm o lh ft galf ziws sffo le filled unused first succ nz show ?thesis
    by blast
qed

lemma twoPixels_locals:
  "encPaxType twoPixels (Some argb4NoMips) = PaxARGB4"
  "encMipImages stubExternals twoPixels (Some argb4NoMips) PaxARGB4 = [twoPixels]"
  "encWriteGALF (Some argb4NoMips) PaxARGB4 = False"
  "encWriteZIWS (Some argb4NoMips) = False"
  by (simp_all add: encPaxType_def encMipImages_def encWriteGALF_def encWriteZIWS_def
        argb4NoMips_def zeroEncodeOptions_def)

lemma twoPixels_mips:
  "encodeMips stubExternals (Some argb4NoMips) PaxARGB4 [twoPixels] [] = Inr mips \<Longrightarrow>
   mips = [\<lparr>mdata = [49, 117, 15, 138], mw = 2, mh = 1, museLZ = False\<rparr>]"
  by (simp add: encodeMip_twoPixels)

lemma sffoOffsets_encTags:
  "sffoOffsets (storeTags (encTags cgva cxam wG gv wZ zt mips) Map.empty) =
     (let out = filter (\<lambda>v. v \<noteq> 0) (sffoTable 16 (baseOffset wG wZ) mips) in
      if length out = 0 then Inl (Errorf ErrMissingSFFO '': no non-zero offsets'') else Inr out)"
  by (simp add: sffoOffsets_def storeTags_encTags sffoEntries_PutUint32)

lemma fileOffsets_singleMipFile: "fileOffsets singleMipFile = Inr [112]"
proof -
  from encode_facts [OF encode_twoPixels] obtain mips blocks where
    em: "encodeMips stubExternals (Some argb4NoMips) PaxARGB4 [twoPixels] [] = Inr mips" and
    ft: "fileTags singleMipFile =
           Inr (storeTags (encTags (encCGVA twoPixels)
                  (encCXAM twoPixels (Some argb4NoMips) PaxARGB4) False
                  (encGalfValue (Some argb4NoMips)) False
                  (bytes4 (encZiwsTag (Some argb4NoMips))) mips) Map.empty)"
    by (auto simp: twoPixels_locals)
  have m: "mips = [\<lparr>mdata = [49, 117, 15, 138], mw = 2, mh = 1, museLZ = False\<rparr>]"
    by (rule twoPixels_mips [OF em])
  have b: "baseOffset False False = 112" by (simp add: baseOffset_def)
  have t: "sffoTable 16 112 mips = [112, 0, 0, 0, 0, 0, 0, 0, 0, 0, 0, 0, 0, 0, 0, 0]"
    by (simp add: m sffoTable_numeral)
  show ?thesis
    unfolding fileOffsets_def ft sum.case sffoOffsets_encTags b t
    by simp
qed

theorem encode_sffo_offsets_witness:
  "\<exists>tgm. fileTags singleMipFile = Inr tgm \<and>
          tgm (bytes_of ''GALF'') = None \<and> tgm (bytes_of ''ZIWS'') = None \<and>
          sffoOffsets tgm = Inr [112]"
proof -
  from encode_sffo_offsets [OF encode_twoPixels] obtain tgm mips blocks entries hdr where
    em: "encodeMips stubExternals (Some argb4NoMips) (encPaxType twoPixels (Some argb4NoMips))
           (encMipImages stubExternals twoPixels (Some argb4NoMips)
              (encPaxType twoPixels (Some argb4NoMips))) [] = Inr mips" and
    ft: "fileTags singleMipFile = Inr tgm" and
    g: "(tgm (bytes_of ''GALF'') \<noteq> None) =
          encWriteGALF (Some argb4NoMips) (encPaxType twoPixels (Some argb4NoMips))" and
    z: "(tgm (bytes_of ''ZIWS'') \<noteq> None) = encWriteZIWS (Some argb4NoMips)" and
    le: "length entries = 16" and
    first: "mips \<noteq> [] \<longrightarrow>
              entries ! 0 =
                of_int (headerSize
                  (encWriteGALF (Some argb4NoMips) (encPaxType twoPixels (Some argb4NoMips)))
                  (encWriteZIWS (Some argb4NoMips)))" and
    nz: "mips \<noteq> [] \<and>
         headerSize (encWriteGALF (Some argb4NoMips) (encPaxType twoPixels (Some argb4NoMips)))
           (encWriteZIWS (Some argb4NoMips)) +
           sum_list (map levelSize (take 16 mips)) < 2 ^ 32 \<longrightarrow>
         sffoOffsets tgm = Inr (take (length mips) entries)"
    by blast
  have m: "mips = [\<lparr>mdata = [49, 117, 15, 138], mw = 2, mh = 1, museLZ = False\<rparr>]"
    using em by (simp add: twoPixels_locals twoPixels_mips)
  have e0: "entries ! 0 = 112"
    using first m by (simp add: twoPixels_locals headerSize_def)
  have "take 1 entries = [entries ! 0]"
    using le by (cases entries) simp_all
  with nz m e0 have "sffoOffsets tgm = Inr [112]"
    by (simp add: twoPixels_locals headerSize_def levelSize_def)
  with ft g z show ?thesis
    by (auto simp: twoPixels_locals)
qed

text \<open>
  The claim as stated gives 116 for a file without GALF and ZIWS; the encoder
  computes 112, which is where the first mip block of the file starts.
\<close>

theorem first_offset_112_counterexample:
  "EncodeWithOptions stubExternals twoPixels (Some argb4NoMips) = Inr singleMipFile \<and>
   encWriteGALF (Some argb4NoMips) (encPaxType twoPixels (Some argb4NoMips)) = False \<and>
   encWriteZIWS (Some argb4NoMips) = False \<and>
   fileOffsets singleMipFile = Inr [112] \<and>
   specHeaderSize False False = 116 \<and>
   (112 :: 32 word) \<noteq> 116"
  by (simp add: encode_twoPixels twoPixels_locals fileOffsets_singleMipFile specHeaderSize_def)

subsection \<open>How many mip blocks are written\<close>



lemma length_mipBlockBytes: "length (mipBlockBytes m) = 7 + length (mdata m)"
  by (simp add: mipBlockBytes_def Let_def length_PutUint16)






















subsection \<open>The swizzle tag of a hint, written and read back\<close>






















end
